theory Spec2Isabelle
  imports Main "HOL-Library.Sublist"
begin

section \<open>Tile downloader (zip\_data.py): model\<close>

text \<open>
  The program downloads vector tiles addressed by three integers (zoom, x, y) and
  stores each one in a file. Python \<open>bytes\<close> values are modelled as lists of 8-bit
  characters, and so are \<open>str\<close> values, character by character: the value of a header
  is decoded as Latin-1, so each of its characters is below 256. Python's unbounded
  integers are \<open>int\<close>. Everything the
  code does besides returning a value is written into an explicit \<open>world\<close>: the files,
  the lines of the failure file, the requests sent and the sleeps taken.
\<close>

type_synonym bytes = "char list"

subsection \<open>Python string helpers\<close>

text \<open>\<open>str(n)\<close> for an integer: decimal digits, with a minus sign when negative.\<close>

definition digit_char :: "nat \<Rightarrow> char" where
  "digit_char d = char_of (48 + d)"

fun str_nat :: "nat \<Rightarrow> string" where
  "str_nat n = (if n < 10 then [digit_char n] else str_nat (n div 10) @ [digit_char (n mod 10)])"

definition str_int :: "int \<Rightarrow> string" where
  "str_int i = (if i < 0 then CHR ''-'' # str_nat (nat (- i)) else str_nat (nat i))"

text \<open>Whitespace of \<open>bytes\<close>, as stripped by \<open>bytes.lstrip()\<close>:
  space, tab, line feed, vertical tab, form feed, carriage return.\<close>

definition is_space :: "char \<Rightarrow> bool" where
  "is_space c = (c = CHR '' '' \<or> c = CHR 0x09 \<or> c = CHR 0x0A \<or> c = CHR 0x0B
                 \<or> c = CHR 0x0C \<or> c = CHR 0x0D)"

definition lstrip :: "bytes \<Rightarrow> bytes" where
  "lstrip b = dropWhile is_space b"

text \<open>\<open>bytes.lower()\<close>: the letters A to Z are mapped to a to z, every other byte is
  kept.\<close>

definition lower_byte :: "char \<Rightarrow> char" where
  "lower_byte c = (let n = (of_char c :: nat) in if 65 \<le> n \<and> n \<le> 90 then char_of (n + 32) else c)"

definition lower :: "bytes \<Rightarrow> bytes" where
  "lower b = map lower_byte b"

text \<open>\<open>str.strip()\<close> and \<open>str.lower()\<close> on a \<open>str\<close> whose characters are below
  256. Whitespace of \<open>str\<close> is that of \<open>bytes\<close> and also the characters 0x1C to 0x1F,
  0x85 and 0xA0. \<open>str.lower()\<close> maps, besides A to Z, the Latin-1 capitals 0xC0 to
  0xDE other than the multiplication sign 0xD7 to the character 32 above.\<close>

definition is_str_space :: "char \<Rightarrow> bool" where
  "is_str_space c =
     (let n = (of_char c :: nat) in (9 \<le> n \<and> n \<le> 13) \<or> (28 \<le> n \<and> n \<le> 32) \<or> n = 133 \<or> n = 160)"

definition str_strip :: "string \<Rightarrow> string" where
  "str_strip s = rev (dropWhile is_str_space (rev (dropWhile is_str_space s)))"

definition str_lower_char :: "char \<Rightarrow> char" where
  "str_lower_char c =
     (let n = (of_char c :: nat)
      in if (65 \<le> n \<and> n \<le> 90) \<or> (192 \<le> n \<and> n \<le> 222 \<and> n \<noteq> 215) then char_of (n + 32) else c)"

definition str_lower :: "string \<Rightarrow> string" where
  "str_lower s = map str_lower_char s"

text \<open>\<open>s.startswith(p)\<close> is \<^term>\<open>prefix p s\<close>.\<close>

definition startswith :: "bytes \<Rightarrow> bytes \<Rightarrow> bool" where
  "startswith s p = prefix p s"

text \<open>Truthiness of an optional string: \<open>None\<close> and the empty string are false.\<close>

definition truthy :: "string option \<Rightarrow> bool" where
  "truthy v = (case v of None \<Rightarrow> False | Some s \<Rightarrow> s \<noteq> [])"

text \<open>\<open>a or b\<close> on optional strings.\<close>

definition py_or :: "string option \<Rightarrow> string option \<Rightarrow> string option" where
  "py_or a b = (if truthy a then a else b)"

text \<open>\<open>os.path.join\<close> on POSIX: a component that starts with a slash replaces what was
  joined so far; otherwise it is appended, after a slash unless the path so far is empty
  or already ends with one.\<close>

definition join2 :: "string \<Rightarrow> string \<Rightarrow> string" where
  "join2 path b =
     (if prefix ''/'' b then b
      else if path = [] \<or> suffix ''/'' path then path @ b
      else path @ ''/'' @ b)"

definition path_join :: "string \<Rightarrow> string list \<Rightarrow> string" where
  "path_join a ps = foldl join2 a ps"

subsection \<open>Constants\<close>

definition BASE_URL :: string where
  "BASE_URL = ''https://gis.data.census.gov/arcgis/rest/services/Hosted/VT_2022_860_Z2_PY_D1/VectorTileServer/tile''"

definition SAVE_DIR :: string where
  "SAVE_DIR = ''zip-tiles''"

definition ACCEPTABLE_CT :: "string list" where
  "ACCEPTABLE_CT = [''application/x-protobuf'', ''application/octet-stream'']"

subsection \<open>The world\<close>

text \<open>A sleep is recorded by its kind: the short random pause after a save, or the
  back-off before retry number \<open>attempt + 1\<close>. The random part of the duration is not
  modelled.\<close>

datatype sleep = SaveJitter | Backoff int

text \<open>\<open>files\<close> maps a path to the content of the regular file there; \<open>failed_file\<close>
  holds the lines appended to \<open>failed_tiles.txt\<close>; \<open>requests\<close> the URLs handed to
  \<open>session.get\<close>; \<open>sleeps\<close> the calls of \<open>time.sleep\<close>, all in order. Directories
  are not modelled, so \<open>ensure_dir\<close> has no effect here.\<close>

record world =
  files :: "string \<rightharpoonup> bytes"
  failed_file :: "string list"
  requests :: "string list"
  sleeps :: "sleep list"

datatype outcome = Saved | Skipped | Empty | Failed

subsection \<open>What one attempt meets\<close>

text \<open>The body of a response is what \<open>iter_content\<close> yields: chunks, possibly ended
  by an exception of the stream.\<close>

datatype stream_ev = Chunk bytes | StreamErr string

record response =
  status_code :: int
  content_type :: "string option"
  body :: "stream_ev list"

text \<open>\<open>session.get\<close> either raises (with a message) or returns a response.\<close>

datatype get_result = GetRaises string | Response response

text \<open>Everything outside the program that one pass of the retry loop meets: the answer
  to the request and the faults of the disk, if any: \<open>open\<close> of the temporary file
  raising, the \<open>n\<close>-th \<open>write\<close> of the pass raising, \<open>os.replace\<close> raising.
  \<open>os.path.exists\<close>, \<open>os.remove\<close>, \<open>os.path.getsize\<close> and \<open>time.sleep\<close> are
  taken not to raise.\<close>

record attempt_env =
  fetch :: get_result
  open_err :: "string option"
  write_err :: "nat \<Rightarrow> string option"
  replace_err :: "string option"

subsection \<open>The functions of the source\<close>

definition tile_path :: "int \<Rightarrow> int \<Rightarrow> int \<Rightarrow> string" where
  "tile_path z x y = path_join SAVE_DIR [str_int z, str_int x, str_int y @ ''.pbf'']"

text \<open>The URL requested for a coordinate (line 86).\<close>

definition tile_url :: "int \<Rightarrow> int \<Rightarrow> int \<Rightarrow> string" where
  "tile_url z x y = BASE_URL @ ''/'' @ str_int z @ ''/'' @ str_int x @ ''/'' @ str_int y @ ''.pbf''"

definition tile_exists_ok :: "string \<Rightarrow> world \<Rightarrow> bool" where
  "tile_exists_ok p w = (case files w p of None \<Rightarrow> False | Some c \<Rightarrow> length c > 0)"

definition is_bad_mime :: "string option \<Rightarrow> bool" where
  "is_bad_mime ct =
     (if \<not> truthy ct then True
      else str_lower (str_strip (takeWhile (\<lambda>c. c \<noteq> CHR '';'') (the ct))) \<notin> set ACCEPTABLE_CT)"

definition looks_like_html_or_json :: "bytes \<Rightarrow> bool" where
  "looks_like_html_or_json b =
     (let s = lower (take 64 (lstrip b))
      in startswith s ''<!doctype'' \<or> startswith s ''<html'' \<or> startswith s ''{'')"

definition log_failure :: "int \<Rightarrow> int \<Rightarrow> int \<Rightarrow> string \<Rightarrow> world \<Rightarrow> world" where
  "log_failure z x y reason w =
     w\<lparr>failed_file := failed_file w
         @ [str_int z @ ''/'' @ str_int x @ ''/'' @ str_int y @ ''  '' @ reason @ [CHR 0x0A]]\<rparr>"

text \<open>\<open>_fetch_once\<close>: \<open>Inl\<close> is the exception of \<open>session.get\<close>; otherwise the triple
  (response, error, content type) the source returns.\<close>

definition fetch_once :: "get_result \<Rightarrow> string + (response option \<times> string option \<times> string option)" where
  "fetch_once g =
     (case g of
        GetRaises e \<Rightarrow> Inl e
      | Response r \<Rightarrow>
          if status_code r \<noteq> 200 then Inr (None, Some (''status:'' @ str_int (status_code r)), None)
          else Inr (Some r, None,
                    Some (str_lower (case py_or (content_type r) (Some []) of Some s \<Rightarrow> s | None \<Rightarrow> []))))"

subsection \<open>File operations\<close>

definition remove_if_exists :: "string \<Rightarrow> world \<Rightarrow> world" where
  "remove_if_exists p w = (if files w p \<noteq> None then w\<lparr>files := (files w)(p := None)\<rparr> else w)"

definition open_wb :: "string \<Rightarrow> world \<Rightarrow> world" where
  "open_wb p w = w\<lparr>files := (files w)(p \<mapsto> [])\<rparr>"

definition f_write :: "string \<Rightarrow> bytes \<Rightarrow> world \<Rightarrow> world" where
  "f_write p c w = w\<lparr>files := (files w)(p \<mapsto> (case files w p of None \<Rightarrow> [] | Some old \<Rightarrow> old) @ c)\<rparr>"

definition getsize :: "string \<Rightarrow> world \<Rightarrow> nat" where
  "getsize p w = (case files w p of None \<Rightarrow> 0 | Some c \<Rightarrow> length c)"

definition os_replace :: "string \<Rightarrow> string \<Rightarrow> world \<Rightarrow> world" where
  "os_replace src dst w = w\<lparr>files := (files w)(dst := files w src, src := None)\<rparr>"

definition do_sleep :: "sleep \<Rightarrow> world \<Rightarrow> world" where
  "do_sleep s w = w\<lparr>sleeps := sleeps w @ [s]\<rparr>"

text \<open>\<open>next(it, b"")\<close>: the next chunk and the rest of the stream, the empty chunk when
  the stream is exhausted, \<open>Inl\<close> when the stream raises.\<close>

definition next_chunk :: "stream_ev list \<Rightarrow> string + (bytes \<times> stream_ev list)" where
  "next_chunk it =
     (case it of
        [] \<Rightarrow> Inr ([], [])
      | Chunk c # rest \<Rightarrow> Inr (c, rest)
      | StreamErr e # rest \<Rightarrow> Inl e)"

text \<open>The loop \<open>for chunk in it: if chunk: f.write(chunk)\<close>; \<open>n\<close> counts the writes
  done so far in this pass. The first component is the exception raised, if any.\<close>

fun write_chunks :: "(nat \<Rightarrow> string option) \<Rightarrow> string \<Rightarrow> nat \<Rightarrow> stream_ev list \<Rightarrow> world
    \<Rightarrow> string option \<times> world" where
  "write_chunks werr tmp n [] w = (None, w)"
| "write_chunks werr tmp n (StreamErr e # rest) w = (Some e, w)"
| "write_chunks werr tmp n (Chunk c # rest) w =
     (if c = [] then write_chunks werr tmp n rest w
      else (case werr n of
              Some e \<Rightarrow> (Some e, w)
            | None \<Rightarrow> write_chunks werr tmp (Suc n) rest (f_write tmp c w)))"

subsection \<open>One pass of the retry loop\<close>

text \<open>What a piece of the loop body does: it returns from \<open>download_tile\<close>, it falls
  through with a new \<open>last_reason\<close>, or it raises.\<close>

datatype step = Return outcome | Next "string option"

datatype flow = Done step | Raise string

text \<open>Lines 124 to 131: the size test with its two branches.\<close>

definition publish :: "attempt_env \<Rightarrow> string \<Rightarrow> string \<Rightarrow> world \<Rightarrow> flow \<times> world" where
  "publish env tmp_file out_file w =
     (if getsize tmp_file w < 100 then
        (case replace_err env of
           Some e \<Rightarrow> (Raise e, w)
         | None \<Rightarrow> (Done (Return Saved), do_sleep SaveJitter (os_replace tmp_file out_file w)))
      else
        (case replace_err env of
           Some e \<Rightarrow> (Raise e, w)
         | None \<Rightarrow> (Done (Return Saved), do_sleep SaveJitter (os_replace tmp_file out_file w))))"

text \<open>The same lines as the specification describes them: every non-empty, non-poisoned
  streamed body is published alike, with no size test.\<close>

definition publish_uniform :: "attempt_env \<Rightarrow> string \<Rightarrow> string \<Rightarrow> world \<Rightarrow> flow \<times> world" where
  "publish_uniform env tmp_file out_file w =
     (case replace_err env of
        Some e \<Rightarrow> (Raise e, w)
      | None \<Rightarrow> (Done (Return Saved), do_sleep SaveJitter (os_replace tmp_file out_file w)))"

text \<open>Lines 118 to 122: the temporary file is opened for writing, the first chunk is
  written, then every further non-empty chunk of the stream. The first component is the
  exception raised, if any; the file is closed in either case.\<close>

definition stream_to_tmp :: "attempt_env \<Rightarrow> string \<Rightarrow> bytes \<Rightarrow> stream_ev list \<Rightarrow> world
    \<Rightarrow> string option \<times> world" where
  "stream_to_tmp env tmp_file first_chunk it w =
     (case open_err env of
        Some e \<Rightarrow> (Some e, w)
      | None \<Rightarrow>
          (case write_err env 0 of
             Some e \<Rightarrow> (Some e, open_wb tmp_file w)
           | None \<Rightarrow> write_chunks (write_err env) tmp_file 1 it
                       (f_write tmp_file first_chunk (open_wb tmp_file w))))"

text \<open>Lines 108 to 134, the body of the inner \<open>try\<close>, for a response \<open>r\<close> with lowered
  content type \<open>ct\<close>. \<open>pub\<close> is the code of lines 124 to 131.\<close>

definition try_body ::
  "(attempt_env \<Rightarrow> string \<Rightarrow> string \<Rightarrow> world \<Rightarrow> flow \<times> world)
   \<Rightarrow> attempt_env \<Rightarrow> response \<Rightarrow> string option \<Rightarrow> string \<Rightarrow> string \<Rightarrow> world \<Rightarrow> flow \<times> world" where
  "try_body pub env r ct tmp_file out_file w =
     (case next_chunk (body r) of
        Inl e \<Rightarrow> (Raise e, w)
      | Inr (first_chunk, it) \<Rightarrow>
          if first_chunk = [] then (Done (Return Empty), remove_if_exists tmp_file w)
          else if looks_like_html_or_json first_chunk then
            (Done (Next (Some (''html_or_json:'' @ the (py_or ct (Some ''unknown''))))),
             remove_if_exists tmp_file w)
          else
            (case stream_to_tmp env tmp_file first_chunk it w of
               (Some e, w') \<Rightarrow> (Raise e, w')
             | (None, w') \<Rightarrow> pub env tmp_file out_file w'))"

text \<open>Lines 97 to 139: one pass of the loop body up to the retry decision. When
  \<open>session.get\<close> raises, \<open>last_reason\<close> is set to a non-empty string, so the \<open>or\<close>
  of line 104 keeps it and reads nothing else.\<close>

definition attempt_body ::
  "(attempt_env \<Rightarrow> string \<Rightarrow> string \<Rightarrow> world \<Rightarrow> flow \<times> world)
   \<Rightarrow> attempt_env \<Rightarrow> string \<Rightarrow> string \<Rightarrow> string option \<Rightarrow> world \<Rightarrow> step \<times> world" where
  "attempt_body pub env url out_file last_reason w =
     (let w0 = w\<lparr>requests := requests w @ [url]\<rparr> in
      case fetch_once (fetch env) of
        Inl e \<Rightarrow> (Next (py_or (Some (''request_error:'' @ e)) (Some ''request_failed'')), w0)
      | Inr (None, err, ct) \<Rightarrow> (Next (py_or last_reason (py_or err (Some ''request_failed''))), w0)
      | Inr (Some r, err, ct) \<Rightarrow>
          (let tmp_file = out_file @ ''.part'' in
           case try_body pub env r ct tmp_file out_file w0 of
             (Done s, w') \<Rightarrow> (case s of Return out \<Rightarrow> (Return out, w') | Next lr \<Rightarrow> (Next lr, w'))
           | (Raise e, w') \<Rightarrow> (Next (Some (''io_or_stream:'' @ e)), remove_if_exists tmp_file w')))"

subsection \<open>The retry loop and \<open>download_tile\<close>\<close>

text \<open>\<open>for attempt in range(html_retries + 1)\<close>, entered at \<open>attempt\<close> with the current
  \<open>last_reason\<close>; \<open>srv attempt\<close> is what that pass meets. Leaving the loop, by \<open>break\<close>
  or because the range is used up, leads to lines 151 and 152.\<close>

function retry_loop ::
  "(attempt_env \<Rightarrow> string \<Rightarrow> string \<Rightarrow> world \<Rightarrow> flow \<times> world)
   \<Rightarrow> (int \<Rightarrow> attempt_env) \<Rightarrow> int \<Rightarrow> int \<Rightarrow> int \<Rightarrow> int \<Rightarrow> int \<Rightarrow> string option \<Rightarrow> world
   \<Rightarrow> outcome \<times> world" where
  "retry_loop pub srv z x y html_retries attempt last_reason w =
     (if html_retries + 1 \<le> attempt then
        (Failed, log_failure z x y (the (py_or last_reason (Some ''unknown''))) w)
      else
        (case attempt_body pub (srv attempt)
                (tile_url z x y)
                (tile_path z x y) last_reason w of
           (Return out, w') \<Rightarrow> (out, w')
         | (Next lr, w') \<Rightarrow>
             if truthy lr \<and> startswith (the lr) ''html_or_json'' \<and> attempt < html_retries then
               retry_loop pub srv z x y html_retries (attempt + 1) lr (do_sleep (Backoff attempt) w')
             else (Failed, log_failure z x y (the (py_or lr (Some ''unknown''))) w')))"
  by pat_completeness auto
termination
  by (relation "measure (\<lambda>(pub, srv, z, x, y, html_retries, attempt, last_reason, w).
                  nat (html_retries + 1 - attempt))") auto

definition download_tile_with ::
  "(attempt_env \<Rightarrow> string \<Rightarrow> string \<Rightarrow> world \<Rightarrow> flow \<times> world)
   \<Rightarrow> (int \<Rightarrow> attempt_env) \<Rightarrow> int \<Rightarrow> int \<Rightarrow> int \<Rightarrow> int \<Rightarrow> world \<Rightarrow> outcome \<times> world" where
  "download_tile_with pub srv z x y html_retries w =
     (if tile_exists_ok (tile_path z x y) w then (Skipped, w)
      else retry_loop pub srv z x y html_retries 0 None w)"

text \<open>\<open>download_tile\<close> as the source has it, with the size test.\<close>

definition download_tile :: "(int \<Rightarrow> attempt_env) \<Rightarrow> int \<Rightarrow> int \<Rightarrow> int \<Rightarrow> int \<Rightarrow> world \<Rightarrow> outcome \<times> world" where
  "download_tile = download_tile_with publish"

text \<open>\<open>download_tile\<close> as the specification describes the success path.\<close>

definition download_tile_uniform :: "(int \<Rightarrow> attempt_env) \<Rightarrow> int \<Rightarrow> int \<Rightarrow> int \<Rightarrow> int \<Rightarrow> world \<Rightarrow> outcome \<times> world" where
  "download_tile_uniform = download_tile_with publish_uniform"

text \<open>The default of the parameter \<open>html_retries\<close>.\<close>

definition html_retries_default :: int where
  "html_retries_default = 3"

subsection \<open>The pipeline\<close>




subsection \<open>Notions used to state the properties\<close>

text \<open>All the bytes a stream delivers, in order.\<close>

definition chunk_bytes :: "stream_ev list \<Rightarrow> bytes" where
  "chunk_bytes evs = concat (map (\<lambda>ev. case ev of Chunk c \<Rightarrow> c | StreamErr e \<Rightarrow> []) evs)"

text \<open>The response of a pass, when the request is answered with status exactly 200.\<close>

definition response_200 :: "attempt_env \<Rightarrow> response option" where
  "response_200 env =
     (case fetch env of
        GetRaises e \<Rightarrow> None
      | Response r \<Rightarrow> if status_code r = 200 then Some r else None)"

text \<open>A pass meets a poisoned payload: a 200 response whose first chunk is not empty and
  looks like HTML or JSON.\<close>

definition poisoned :: "attempt_env \<Rightarrow> bool" where
  "poisoned env =
     (case response_200 env of
        None \<Rightarrow> False
      | Some r \<Rightarrow>
          (case next_chunk (body r) of
             Inl e \<Rightarrow> False
           | Inr (c, it) \<Rightarrow> c \<noteq> [] \<and> looks_like_html_or_json c))"

text \<open>A pass meets an empty body: a 200 response whose first chunk is empty.\<close>

definition empty_body :: "attempt_env \<Rightarrow> bool" where
  "empty_body env =
     (case response_200 env of
        None \<Rightarrow> False
      | Some r \<Rightarrow> (case next_chunk (body r) of Inl e \<Rightarrow> False | Inr (c, it) \<Rightarrow> c = []))"




subsection \<open>Concrete inputs\<close>

text \<open>A world with no file yet, and passes that meet no fault of the disk and get a
  given answer.\<close>

definition empty_world :: world where
  "empty_world = \<lparr>files = Map.empty, failed_file = [], requests = [], sleeps = []\<rparr>"

definition answer :: "get_result \<Rightarrow> attempt_env" where
  "answer g = \<lparr>fetch = g, open_err = None, write_err = (\<lambda>n. None), replace_err = None\<rparr>"

text \<open>A JSON error page sent with status 200.\<close>

definition json_env :: attempt_env where
  "json_env = answer (Response \<lparr>status_code = 200, content_type = Some ''application/json'',
                                 body = [Chunk ''{}'']\<rparr>)"

text \<open>A response with status 404 and one with status 204, both without a body.\<close>

definition not_found_env :: attempt_env where
  "not_found_env = answer (Response \<lparr>status_code = 404, content_type = None, body = []\<rparr>)"

definition no_content_response :: response where
  "no_content_response = \<lparr>status_code = 204, content_type = None, body = []\<rparr>"

text \<open>A 200 response with an empty body.\<close>

definition empty_env :: attempt_env where
  "empty_env = answer (Response \<lparr>status_code = 200, content_type = Some ''application/x-protobuf'',
                                  body = []\<rparr>)"


text \<open>A 200 response declared as plain text, with a body that is neither HTML nor JSON.\<close>

definition plain_text_env :: attempt_env where
  "plain_text_env = answer (Response \<lparr>status_code = 200, content_type = Some ''text/plain'',
                                       body = [Chunk ''hello'']\<rparr>)"

text \<open>A 200 response whose stream breaks after the first chunk.\<close>

definition broken_response :: response where
  "broken_response = \<lparr>status_code = 200, content_type = Some ''application/x-protobuf'',
                       body = [Chunk ''ab'', StreamErr ''reset'']\<rparr>"

definition broken_env :: attempt_env where
  "broken_env = answer (Response broken_response)"




text \<open>A server that sends the JSON error page to the first request and status 404 to
  every later one.\<close>

definition json_then_404 :: "int \<Rightarrow> attempt_env" where
  "json_then_404 k = (if k = 0 then json_env else not_found_env)"

subsection \<open>Stored tiles\<close>



subsection \<open>Reading a decimal string back\<close>

text \<open>The inverse of \<^const>\<open>str_nat\<close>, used to show that \<open>str\<close> loses nothing.\<close>

definition nat_of_str :: "string \<Rightarrow> nat" where
  "nat_of_str s = foldl (\<lambda>a c. 10 * a + ((of_char c :: nat) - 48)) 0 s"

section \<open>Properties\<close>

subsection \<open>Decimal strings and paths\<close>

declare str_nat.simps [simp del]

lemma of_char_digit_char: "d < 10 \<Longrightarrow> (of_char (digit_char d) :: nat) = 48 + d"
  by (simp add: digit_char_def)

lemma nat_of_str_str_nat: "nat_of_str (str_nat n) = n"
proof (induction n rule: str_nat.induct)
  case (1 n)
  show ?case
  proof (cases "n < 10")
    case True
    then show ?thesis
      by (subst str_nat.simps) (simp add: nat_of_str_def of_char_digit_char)
  next
    case False
    with 1 have "nat_of_str (str_nat (n div 10)) = n div 10" by simp
    with False show ?thesis
      by (subst str_nat.simps) (simp add: nat_of_str_def of_char_digit_char)
  qed
qed

lemma str_nat_inj: "str_nat a = str_nat b \<Longrightarrow> a = b"
  by (metis nat_of_str_str_nat)

lemma str_nat_digits: "c \<in> set (str_nat n) \<Longrightarrow> 48 \<le> (of_char c :: nat) \<and> (of_char c :: nat) < 58"
proof (induction n rule: str_nat.induct)
  case (1 n)
  show ?case
  proof (cases "n < 10")
    case True
    with 1(2) show ?thesis
      by (subst (asm) str_nat.simps) (simp add: of_char_digit_char)
  next
    case False
    with 1 show ?thesis
      by (subst (asm) (2) str_nat.simps) (auto simp: of_char_digit_char)
  qed
qed

lemma str_nat_nonempty: "str_nat n \<noteq> []"
  by (subst str_nat.simps) simp

lemma str_nat_no_char: "(of_char c :: nat) < 48 \<Longrightarrow> c \<notin> set (str_nat n)"
  using str_nat_digits [of c n] by auto

lemma str_nat_hd: "hd (str_nat n) \<in> set (str_nat n)"
  by (simp add: str_nat_nonempty)

lemma str_int_inj: "str_int a = str_int b \<Longrightarrow> a = b"
proof -
  assume eq: "str_int a = str_int b"
  have minus: "CHR ''-'' \<notin> set (str_nat n)" for n
    by (rule str_nat_no_char) simp
  have no: "CHR ''-'' # s \<noteq> str_nat n" for s n
    using minus [of n] by (metis list.set_intros(1))
  show ?thesis
  proof (cases "a < 0")
    case a: True
    show ?thesis
    proof (cases "b < 0")
      case True
      with a eq have "str_nat (nat (- a)) = str_nat (nat (- b))" by (simp add: str_int_def)
      then have "nat (- a) = nat (- b)" by (rule str_nat_inj)
      with a True show ?thesis by simp
    next
      case False
      with a eq no show ?thesis by (simp add: str_int_def)
    qed
  next
    case a: False
    show ?thesis
    proof (cases "b < 0")
      case True
      with a eq no [of "str_nat (nat (- b))" "nat a"] show ?thesis by (simp add: str_int_def)
    next
      case False
      with a eq have "str_nat (nat a) = str_nat (nat b)" by (simp add: str_int_def)
      then have "nat a = nat b" by (rule str_nat_inj)
      with a False show ?thesis by simp
    qed
  qed
qed

lemma str_int_no_slash: "CHR ''/'' \<notin> set (str_int i)"
proof -
  have "CHR ''/'' \<notin> set (str_nat n)" for n
    by (rule str_nat_no_char) simp
  then show ?thesis by (simp add: str_int_def)
qed

lemma no_slash_prefix: "CHR ''/'' \<notin> set s \<Longrightarrow> \<not> prefix ''/'' s"
  by (cases s) auto

lemma no_slash_suffix: "s \<noteq> [] \<Longrightarrow> CHR ''/'' \<notin> set s \<Longrightarrow> \<not> suffix ''/'' (p @ s)"
proof
  assume ne: "s \<noteq> []" and no: "CHR ''/'' \<notin> set s" and "suffix ''/'' (p @ s)"
  then obtain zs where "p @ s = zs @ ''/''" by (auto simp: suffix_def)
  then have "last (p @ s) = CHR ''/''" by simp
  with ne have "last s = CHR ''/''" by simp
  with ne no show False using last_in_set by metis
qed

lemma split_at_slash:
  "a @ CHR ''/'' # b = c @ CHR ''/'' # d \<Longrightarrow> CHR ''/'' \<notin> set a \<Longrightarrow> CHR ''/'' \<notin> set c
   \<Longrightarrow> a = c \<and> b = d"
proof (induction a arbitrary: c)
  case Nil
  then show ?case by (cases c) auto
next
  case (Cons h t)
  then show ?case by (cases c) auto
qed

lemma str_int_nonempty: "str_int i \<noteq> []"
  by (simp add: str_int_def str_nat_nonempty)

lemma tile_path_eq:
  "tile_path z x y = ''zip-tiles/'' @ str_int z @ ''/'' @ str_int x @ ''/'' @ str_int y @ ''.pbf''"
proof -
  have 1: "join2 SAVE_DIR (str_int z) = ''zip-tiles/'' @ str_int z"
    by (simp add: join2_def SAVE_DIR_def no_slash_prefix str_int_no_slash suffix_def)
  have 2: "join2 (''zip-tiles/'' @ str_int z) (str_int x) = ''zip-tiles/'' @ str_int z @ ''/'' @ str_int x"
    using no_slash_suffix [where s = "str_int z" and p = "''zip-tiles/''"]
    by (simp add: join2_def no_slash_prefix str_int_no_slash str_int_nonempty)
  have 3: "join2 (''zip-tiles/'' @ str_int z @ ''/'' @ str_int x) (str_int y @ ''.pbf'')
           = ''zip-tiles/'' @ str_int z @ ''/'' @ str_int x @ ''/'' @ str_int y @ ''.pbf''"
    using no_slash_suffix [where s = "str_int x" and p = "''zip-tiles/'' @ str_int z @ ''/''"]
      no_slash_prefix [of "str_int y @ ''.pbf''"]
    by (simp add: join2_def str_int_no_slash str_int_nonempty)
  show ?thesis
    by (simp only: tile_path_def path_join_def foldl.simps 1 2 3)
qed

lemma tile_path_inj:
  "tile_path z x y = tile_path z' x' y' \<Longrightarrow> z = z' \<and> x = x' \<and> y = y'"
proof -
  assume "tile_path z x y = tile_path z' x' y'"
  then have e: "str_int z @ CHR ''/'' # (str_int x @ CHR ''/'' # (str_int y @ ''.pbf''))
              = str_int z' @ CHR ''/'' # (str_int x' @ CHR ''/'' # (str_int y' @ ''.pbf''))"
    by (simp add: tile_path_eq)
  from split_at_slash [OF e str_int_no_slash str_int_no_slash]
  have z: "str_int z = str_int z'"
    and r: "str_int x @ CHR ''/'' # (str_int y @ ''.pbf'') = str_int x' @ CHR ''/'' # (str_int y' @ ''.pbf'')"
    by simp_all
  from split_at_slash [OF r str_int_no_slash str_int_no_slash]
  have x: "str_int x = str_int x'" and y: "str_int y = str_int y'" by simp_all
  from z x y show ?thesis by (simp add: str_int_inj)
qed

text \<open>
  C8. For tile coordinates with non-negative components, \<open>tile_path\<close> is a function of
  the coordinate alone that yields the path \<open><root>/<zoom>/<x>/<y>.pbf\<close>, and two
  distinct coordinates never get the same path.
\<close>

theorem tile_path_layout_injective:
  "0 \<le> z \<and> 0 \<le> x \<and> 0 \<le> y \<and> 0 \<le> z' \<and> 0 \<le> x' \<and> 0 \<le> y' \<Longrightarrow>
     tile_path z x y = SAVE_DIR @ ''/'' @ str_int z @ ''/'' @ str_int x @ ''/'' @ str_int y @ ''.pbf''
     \<and> ((z, x, y) \<noteq> (z', x', y') \<longrightarrow> tile_path z x y \<noteq> tile_path z' x' y')"
  using tile_path_inj [of z x y z' x' y'] by (auto simp: tile_path_eq SAVE_DIR_def)

theorem tile_path_layout_injective_witness:
  "((0::int) \<le> 3 \<and> (0::int) \<le> 1 \<and> (0::int) \<le> 1 \<and> (0::int) \<le> 3 \<and> (0::int) \<le> 1 \<and> (0::int) \<le> 2)
   \<and> tile_path 3 1 1 = SAVE_DIR @ ''/'' @ str_int 3 @ ''/'' @ str_int 1 @ ''/'' @ str_int 1 @ ''.pbf''
   \<and> tile_path 3 1 1 \<noteq> tile_path 3 1 2"
proof -
  have h: "(0::int) \<le> 3 \<and> (0::int) \<le> 1 \<and> (0::int) \<le> 1 \<and> (0::int) \<le> 3 \<and> (0::int) \<le> 1 \<and> (0::int) \<le> 2"
    by simp
  have ne: "((3::int), (1::int), (1::int)) \<noteq> (3, 1, 2)"
    by simp
  from tile_path_layout_injective [OF h] ne h show ?thesis
    by blast
qed

subsection \<open>The size test\<close>

declare retry_loop.simps [simp del]

lemma publish_uniform_eq: "publish_uniform = publish"
  by (intro ext) (simp add: publish_def publish_uniform_def)

text \<open>
  C9. The two success branches of \<open>download_tile\<close>, for a temporary file shorter than
  100 bytes and for a longer one, do the same: the same rename, the same sleep, the same
  result \<open>Saved\<close>. So the function that publishes every non-empty, non-poisoned body
  alike, with no size test, is equal to the function of the source.
\<close>

theorem small_file_branch_equivalent:
  "publish_uniform env tmp_file out_file w = publish env tmp_file out_file w
   \<and> download_tile_uniform srv z x y html_retries w = download_tile srv z x y html_retries w"
  by (simp add: download_tile_uniform_def download_tile_def publish_uniform_eq)

subsection \<open>Writing the chunks\<close>



lemma chunk_bytes_simps:
  "chunk_bytes [] = []"
  "chunk_bytes (Chunk c # evs) = c @ chunk_bytes evs"
  "chunk_bytes (StreamErr e # evs) = chunk_bytes evs"
  by (simp_all add: chunk_bytes_def)

lemma write_chunks_frame:
  "p \<noteq> tmp \<Longrightarrow> files (snd (write_chunks werr tmp n evs w)) p = files w p"
proof (induction evs arbitrary: n w)
  case Nil
  show ?case by simp
next
  case (Cons ev evs)
  show ?case
  proof (cases ev)
    case (Chunk c)
    show ?thesis
    proof (cases "c = []")
      case True
      with Chunk Cons show ?thesis by simp
    next
      case False
      show ?thesis
      proof (cases "werr n")
        case None
        from Cons have "files (snd (write_chunks werr tmp (Suc n) evs (f_write tmp c w))) p
            = files (f_write tmp c w) p" by simp
        with Cons(2) Chunk False None show ?thesis by (simp add: f_write_def)
      next
        case (Some e)
        with Chunk False show ?thesis by simp
      qed
    qed
  next
    case (StreamErr e)
    then show ?thesis by simp
  qed
qed

lemma write_chunks_other:
  "failed_file (snd (write_chunks werr tmp n evs w)) = failed_file w
   \<and> requests (snd (write_chunks werr tmp n evs w)) = requests w
   \<and> sleeps (snd (write_chunks werr tmp n evs w)) = sleeps w"
proof (induction evs arbitrary: n w)
  case Nil
  show ?case by simp
next
  case (Cons ev evs)
  show ?case
  proof (cases ev)
    case (Chunk c)
    show ?thesis
    proof (cases "c = []")
      case True
      with Chunk Cons show ?thesis by simp
    next
      case False
      show ?thesis
      proof (cases "werr n")
        case None
        with Chunk False Cons [of "Suc n" "f_write tmp c w"] show ?thesis
          by (simp add: f_write_def)
      next
        case (Some e)
        with Chunk False show ?thesis by simp
      qed
    qed
  next
    case (StreamErr e)
    then show ?thesis by simp
  qed
qed

lemma write_chunks_done:
  "write_chunks werr tmp n evs w = (None, w') \<Longrightarrow> files w tmp = Some old
   \<Longrightarrow> files w' tmp = Some (old @ chunk_bytes evs) \<and> (\<forall>e. StreamErr e \<notin> set evs)"
proof (induction evs arbitrary: n w old)
  case Nil
  then show ?case by (simp add: chunk_bytes_simps)
next
  case (Cons ev evs)
  show ?case
  proof (cases ev)
    case (Chunk c)
    show ?thesis
    proof (cases "c = []")
      case True
      with Chunk Cons.prems have "write_chunks werr tmp n evs w = (None, w')" by simp
      from Cons.IH [OF this Cons.prems(2)] Chunk True show ?thesis
        by (simp add: chunk_bytes_simps)
    next
      case False
      show ?thesis
      proof (cases "werr n")
        case None
        with Chunk False Cons.prems
        have run: "write_chunks werr tmp (Suc n) evs (f_write tmp c w) = (None, w')" by simp
        have "files (f_write tmp c w) tmp = Some (old @ c)"
          using Cons.prems(2) by (simp add: f_write_def)
        from Cons.IH [OF run this] Chunk show ?thesis
          by (simp add: chunk_bytes_simps)
      next
        case (Some e)
        with Chunk False Cons.prems show ?thesis by simp
      qed
    qed
  next
    case (StreamErr e)
    with Cons.prems show ?thesis by simp
  qed
qed


subsection \<open>Filling and publishing the temporary file\<close>


lemma stream_to_tmp_frame:
  "p \<noteq> tmp \<Longrightarrow> files (snd (stream_to_tmp env tmp c it w)) p = files w p"
  by (simp add: stream_to_tmp_def write_chunks_frame f_write_def open_wb_def split: option.splits)

lemma stream_to_tmp_other:
  "failed_file (snd (stream_to_tmp env tmp c it w)) = failed_file w
   \<and> requests (snd (stream_to_tmp env tmp c it w)) = requests w
   \<and> sleeps (snd (stream_to_tmp env tmp c it w)) = sleeps w"
  by (simp add: stream_to_tmp_def write_chunks_other f_write_def open_wb_def split: option.splits)

lemma stream_to_tmp_done:
  assumes "stream_to_tmp env tmp c it w = (None, w')"
  shows "files w' tmp = Some (c @ chunk_bytes it) \<and> (\<forall>e. StreamErr e \<notin> set it)"
proof -
  from assms have run: "write_chunks (write_err env) tmp 1 it (f_write tmp c (open_wb tmp w)) = (None, w')"
    by (simp add: stream_to_tmp_def split: option.splits)
  have "files (f_write tmp c (open_wb tmp w)) tmp = Some ([] @ c)"
    by (simp add: f_write_def open_wb_def)
  from write_chunks_done [OF run this] show ?thesis by simp
qed

lemma publish_eq:
  "publish env tmp out w =
     (case replace_err env of
        Some e \<Rightarrow> (Raise e, w)
      | None \<Rightarrow> (Done (Return Saved), do_sleep SaveJitter (os_replace tmp out w)))"
  by (simp add: publish_def)


subsection \<open>The inner try\<close>

lemma try_body_cases:
  obtains
    (stream_raises) e where
      "next_chunk (body r) = Inl e"
      "try_body publish env r ct tmp out w = (Raise e, w)"
  | (empty) it where
      "next_chunk (body r) = Inr ([], it)"
      "try_body publish env r ct tmp out w = (Done (Return Empty), remove_if_exists tmp w)"
  | (sniffed) c it where
      "next_chunk (body r) = Inr (c, it)" "c \<noteq> []" "looks_like_html_or_json c"
      "try_body publish env r ct tmp out w
         = (Done (Next (Some (''html_or_json:'' @ the (py_or ct (Some ''unknown''))))),
            remove_if_exists tmp w)"
  | (write_raises) c it e w' where
      "next_chunk (body r) = Inr (c, it)" "c \<noteq> []" "\<not> looks_like_html_or_json c"
      "stream_to_tmp env tmp c it w = (Some e, w')"
      "try_body publish env r ct tmp out w = (Raise e, w')"
  | (replace_raises) c it e w' where
      "next_chunk (body r) = Inr (c, it)" "c \<noteq> []" "\<not> looks_like_html_or_json c"
      "stream_to_tmp env tmp c it w = (None, w')" "replace_err env = Some e"
      "try_body publish env r ct tmp out w = (Raise e, w')"
  | (saved) c it w' where
      "next_chunk (body r) = Inr (c, it)" "c \<noteq> []" "\<not> looks_like_html_or_json c"
      "stream_to_tmp env tmp c it w = (None, w')" "replace_err env = None"
      "try_body publish env r ct tmp out w
         = (Done (Return Saved), do_sleep SaveJitter (os_replace tmp out w'))"
proof (cases "next_chunk (body r)")
  case (Inl e)
  then have "try_body publish env r ct tmp out w = (Raise e, w)"
    by (simp add: try_body_def)
  with Inl show ?thesis by (rule stream_raises)
next
  case (Inr p)
  obtain c it where p: "p = (c, it)" by (cases p)
  with Inr have nc: "next_chunk (body r) = Inr (c, it)" by simp
  show ?thesis
  proof (cases "c = []")
    case True
    with nc have "try_body publish env r ct tmp out w = (Done (Return Empty), remove_if_exists tmp w)"
      by (simp add: try_body_def)
    with nc True show ?thesis using empty by simp
  next
    case ne: False
    show ?thesis
    proof (cases "looks_like_html_or_json c")
      case True
      with nc ne have "try_body publish env r ct tmp out w
         = (Done (Next (Some (''html_or_json:'' @ the (py_or ct (Some ''unknown''))))),
            remove_if_exists tmp w)"
        by (simp add: try_body_def)
      with nc ne True show ?thesis by (rule sniffed)
    next
      case nl: False
      obtain res w' where st: "stream_to_tmp env tmp c it w = (res, w')"
        by (cases "stream_to_tmp env tmp c it w")
      show ?thesis
      proof (cases res)
        case (Some e)
        with nc ne nl st have "try_body publish env r ct tmp out w = (Raise e, w')"
          by (simp add: try_body_def)
        with nc ne nl st Some show ?thesis using write_raises by simp
      next
        case None
        show ?thesis
        proof (cases "replace_err env")
          case (Some e)
          with nc ne nl st None have "try_body publish env r ct tmp out w = (Raise e, w')"
            by (simp add: try_body_def publish_eq)
          with nc ne nl st None Some show ?thesis using replace_raises by simp
        next
          case rn: None
          with nc ne nl st None have "try_body publish env r ct tmp out w
             = (Done (Return Saved), do_sleep SaveJitter (os_replace tmp out w'))"
            by (simp add: try_body_def publish_eq)
          with nc ne nl st None rn show ?thesis using saved by simp
        qed
      qed
    qed
  qed
qed


lemma try_body_raise:
  assumes "try_body publish env r ct tmp out w = (Raise e, w')"
  shows "(\<forall>p. p \<noteq> tmp \<longrightarrow> files w' p = files w p) \<and> failed_file w' = failed_file w
         \<and> requests w' = requests w \<and> sleeps w' = sleeps w"
proof (cases rule: try_body_cases [of r env ct tmp out w])
  case (stream_raises e)
  with assms show ?thesis by simp
next
  case (empty it)
  with assms show ?thesis by simp
next
  case (sniffed c it)
  with assms show ?thesis by simp
next
  case (write_raises c it e2 w2)
  with assms have "w' = snd (stream_to_tmp env tmp c it w)" by simp
  then show ?thesis by (simp add: stream_to_tmp_frame stream_to_tmp_other)
next
  case (replace_raises c it e2 w2)
  with assms have "w' = snd (stream_to_tmp env tmp c it w)" by simp
  then show ?thesis by (simp add: stream_to_tmp_frame stream_to_tmp_other)
next
  case (saved c it w2)
  with assms show ?thesis by simp
qed

subsection \<open>One pass\<close>

lemma py_or_Some [simp]: "s \<noteq> [] \<Longrightarrow> py_or (Some s) b = Some s"
  by (simp add: py_or_def truthy_def)

lemma py_or_None [simp]: "py_or None b = b"
  by (simp add: py_or_def truthy_def)

lemma fetch_once_200:
  "response_200 env = Some r \<Longrightarrow> \<exists>ct. fetch_once (fetch env) = Inr (Some r, None, Some ct)"
  by (auto simp: response_200_def fetch_once_def split: get_result.splits if_splits)

lemma attempt_body_cases:
  fixes w url out
  defines "w0 \<equiv> w\<lparr>requests := requests w @ [url]\<rparr>"
  defines "tmp \<equiv> out @ ''.part''"
  obtains
    (get_raises) e where
      "fetch env = GetRaises e"
      "attempt_body publish env url out lr w = (Next (Some (''request_error:'' @ e)), w0)"
  | (bad_status) r where
      "fetch env = Response r" "status_code r \<noteq> 200"
      "attempt_body publish env url out lr w
         = (Next (py_or lr (Some (''status:'' @ str_int (status_code r)))), w0)"
  | (empty) r where
      "response_200 env = Some r" "empty_body env"
      "attempt_body publish env url out lr w = (Return Empty, remove_if_exists tmp w0)"
  | (sniffed) r ct where
      "response_200 env = Some r" "poisoned env"
      "attempt_body publish env url out lr w
         = (Next (Some (''html_or_json:'' @ ct)), remove_if_exists tmp w0)"
  | (raised) r ct e w' where
      "response_200 env = Some r" "\<not> empty_body env" "\<not> poisoned env"
      "try_body publish env r ct tmp out w0 = (Raise e, w')"
      "attempt_body publish env url out lr w
         = (Next (Some (''io_or_stream:'' @ e)), remove_if_exists tmp w')"
  | (saved) r c it w' where
      "response_200 env = Some r" "\<not> empty_body env" "\<not> poisoned env"
      "next_chunk (body r) = Inr (c, it)" "c \<noteq> []"
      "stream_to_tmp env tmp c it w0 = (None, w')"
      "attempt_body publish env url out lr w
         = (Return Saved, do_sleep SaveJitter (os_replace tmp out w'))"
proof (cases "response_200 env")
  case None
  show ?thesis
  proof (cases "fetch env")
    case (GetRaises e)
    then have "attempt_body publish env url out lr w = (Next (Some (''request_error:'' @ e)), w0)"
      by (simp add: attempt_body_def fetch_once_def w0_def)
    with GetRaises show ?thesis by (rule get_raises)
  next
    case (Response r)
    with None have st: "status_code r \<noteq> 200"
      by (simp add: response_200_def split: if_splits)
    with Response have "attempt_body publish env url out lr w
         = (Next (py_or lr (Some (''status:'' @ str_int (status_code r)))), w0)"
      by (simp add: attempt_body_def fetch_once_def w0_def)
    with Response st show ?thesis by (rule bad_status)
  qed
next
  case (Some r)
  from fetch_once_200 [OF Some] obtain ct
    where fo: "fetch_once (fetch env) = Inr (Some r, None, Some ct)" by blast
  have ab: "attempt_body publish env url out lr w =
      (case try_body publish env r (Some ct) tmp out w0 of
         (Done s, w') \<Rightarrow> (case s of Return out \<Rightarrow> (Return out, w') | Next lr \<Rightarrow> (Next lr, w'))
       | (Raise e, w') \<Rightarrow> (Next (Some (''io_or_stream:'' @ e)), remove_if_exists tmp w'))"
    unfolding w0_def tmp_def by (simp add: attempt_body_def fo Let_def)
  show ?thesis
  proof (cases rule: try_body_cases [of r env "Some ct" tmp out w0])
    case (stream_raises e)
    with Some have "\<not> empty_body env" "\<not> poisoned env"
      by (simp_all add: empty_body_def poisoned_def)
    moreover from stream_raises ab have "attempt_body publish env url out lr w
         = (Next (Some (''io_or_stream:'' @ e)), remove_if_exists tmp w0)" by simp
    ultimately show ?thesis using raised [OF Some _ _ stream_raises(2)] by simp
  next
    case (empty it)
    with Some have "empty_body env" by (simp add: empty_body_def)
    moreover from empty ab have
      "attempt_body publish env url out lr w = (Return Empty, remove_if_exists tmp w0)" by simp
    ultimately show ?thesis using Some by (intro that(3))
  next
    case (sniffed c it)
    with Some have "poisoned env" by (simp add: poisoned_def)
    moreover from sniffed ab have "attempt_body publish env url out lr w
         = (Next (Some (''html_or_json:'' @ the (py_or (Some ct) (Some ''unknown'')))),
            remove_if_exists tmp w0)" by simp
    ultimately show ?thesis using Some by (intro that(4))
  next
    case (write_raises c it e w')
    with Some have "\<not> empty_body env" "\<not> poisoned env"
      by (simp_all add: empty_body_def poisoned_def)
    moreover from write_raises ab have "attempt_body publish env url out lr w
         = (Next (Some (''io_or_stream:'' @ e)), remove_if_exists tmp w')" by simp
    ultimately show ?thesis using raised [OF Some _ _ write_raises(5)] by simp
  next
    case (replace_raises c it e w')
    with Some have "\<not> empty_body env" "\<not> poisoned env"
      by (simp_all add: empty_body_def poisoned_def)
    moreover from replace_raises ab have "attempt_body publish env url out lr w
         = (Next (Some (''io_or_stream:'' @ e)), remove_if_exists tmp w')" by simp
    ultimately show ?thesis using raised [OF Some _ _ replace_raises(6)] by simp
  next
    case (saved c it w')
    with Some have "\<not> empty_body env" "\<not> poisoned env"
      by (simp_all add: empty_body_def poisoned_def)
    moreover from saved ab have "attempt_body publish env url out lr w
         = (Return Saved, do_sleep SaveJitter (os_replace tmp out w'))" by simp
    ultimately show ?thesis using Some saved(1,2,4) by (intro that(6))
  qed
qed

lemma part_neq: "out @ ''.part'' \<noteq> out"
  by simp




lemma attempt_body_poisoned:
  assumes "poisoned env"
  shows "\<exists>ct. attempt_body publish env url out lr w
           = (Next (Some (''html_or_json:'' @ ct)),
              remove_if_exists (out @ ''.part'') (w\<lparr>requests := requests w @ [url]\<rparr>))"
proof (cases rule: attempt_body_cases [of env url out lr w])
  case (get_raises e)
  with assms show ?thesis by (simp add: poisoned_def response_200_def)
next
  case (bad_status r)
  with assms show ?thesis by (simp add: poisoned_def response_200_def)
next
  case (empty r)
  with assms show ?thesis
    by (auto simp: poisoned_def empty_body_def split: sum.splits)
next
  case (sniffed r ct)
  then show ?thesis by blast
next
  case (raised r ct e w')
  with assms show ?thesis by simp
next
  case (saved r c it w')
  with assms show ?thesis by simp
qed

lemma attempt_body_empty:
  assumes "empty_body env"
  shows "attempt_body publish env url out lr w
           = (Return Empty, remove_if_exists (out @ ''.part'') (w\<lparr>requests := requests w @ [url]\<rparr>))"
proof (cases rule: attempt_body_cases [of env url out lr w])
  case (get_raises e)
  with assms show ?thesis by (simp add: empty_body_def response_200_def)
next
  case (bad_status r)
  with assms show ?thesis by (simp add: empty_body_def response_200_def)
next
  case (empty r)
  then show ?thesis by simp
next
  case (sniffed r ct)
  with assms show ?thesis
    by (auto simp: poisoned_def empty_body_def split: sum.splits)
next
  case (raised r ct e w')
  with assms show ?thesis by simp
next
  case (saved r c it w')
  with assms show ?thesis by simp
qed

lemma remove_if_exists_simps [simp]:
  "files (remove_if_exists p w) q = (if q = p then None else files w q)"
  "failed_file (remove_if_exists p w) = failed_file w"
  "requests (remove_if_exists p w) = requests w"
  "sleeps (remove_if_exists p w) = sleeps w"
  by (auto simp: remove_if_exists_def)

text \<open>What one pass does to the world.\<close>

lemma attempt_body_effects:
  fixes env url out lr w
  defines "res \<equiv> attempt_body publish env url out lr w"
  shows "requests (snd res) = requests w @ [url]"
    and "failed_file (snd res) = failed_file w"
    and "p \<noteq> out \<Longrightarrow> p \<noteq> out @ ''.part'' \<Longrightarrow> files (snd res) p = files w p"
    and "fst res \<noteq> Return Saved \<Longrightarrow> files (snd res) out = files w out"
    and "fst res \<noteq> Return Skipped \<and> fst res \<noteq> Return Failed"
    and "fst res = Return Saved \<Longrightarrow>
           \<exists>r. response_200 env = Some r \<and> (\<forall>e. StreamErr e \<notin> set (body r))
             \<and> chunk_bytes (body r) \<noteq> []
             \<and> files (snd res) out = Some (chunk_bytes (body r))
             \<and> files (snd res) (out @ ''.part'') = None"
    and "fst res = Return Empty \<Longrightarrow> empty_body env"
proof -
  let ?tmp = "out @ ''.part''"
  let ?w0 = "w\<lparr>requests := requests w @ [url]\<rparr>"
  have all: "requests (snd res) = requests w @ [url] \<and> failed_file (snd res) = failed_file w
      \<and> (p \<noteq> out \<longrightarrow> p \<noteq> ?tmp \<longrightarrow> files (snd res) p = files w p)
      \<and> (fst res \<noteq> Return Saved \<longrightarrow> files (snd res) out = files w out)
      \<and> fst res \<noteq> Return Skipped \<and> fst res \<noteq> Return Failed
      \<and> (fst res = Return Saved \<longrightarrow>
           (\<exists>r. response_200 env = Some r \<and> (\<forall>e. StreamErr e \<notin> set (body r))
             \<and> chunk_bytes (body r) \<noteq> []
             \<and> files (snd res) out = Some (chunk_bytes (body r))
             \<and> files (snd res) ?tmp = None))
      \<and> (fst res = Return Empty \<longrightarrow> empty_body env)"
  proof (cases rule: attempt_body_cases [of env url out lr w])
    case (get_raises e)
    then show ?thesis by (simp add: res_def)
  next
    case (bad_status r)
    then show ?thesis by (simp add: res_def)
  next
    case (empty r)
    then show ?thesis by (simp add: res_def)
  next
    case (sniffed r ct)
    then show ?thesis by (simp add: res_def)
  next
    case (raised r ct e w')
    from try_body_raise [OF raised(4)] raised(5) show ?thesis
      by (simp add: res_def)
  next
    case (saved r c it w')
    have w': "w' = snd (stream_to_tmp env ?tmp c it ?w0)"
      using saved(6) by simp
    from saved(4,5) have b: "body r = Chunk c # it"
      by (auto simp: next_chunk_def split: list.splits stream_ev.splits)
    from stream_to_tmp_done [OF saved(6)]
    have tmpc: "files w' ?tmp = Some (c @ chunk_bytes it)" and noerr: "\<forall>e. StreamErr e \<notin> set it"
      by simp_all
    have other: "failed_file w' = failed_file w" "requests w' = requests w @ [url]"
      by (simp_all add: w' stream_to_tmp_other)
    have frame: "q \<noteq> ?tmp \<Longrightarrow> files w' q = files w q" for q
      by (simp add: w' stream_to_tmp_frame)
    from saved(1,5,7) b tmpc noerr other frame [of p] show ?thesis
      by (auto simp: res_def do_sleep_def os_replace_def chunk_bytes_simps)
  qed
  from all show "requests (snd res) = requests w @ [url]" by simp
  from all show "failed_file (snd res) = failed_file w" by simp
  from all show "p \<noteq> out \<Longrightarrow> p \<noteq> out @ ''.part'' \<Longrightarrow> files (snd res) p = files w p" by simp
  from all show "fst res \<noteq> Return Saved \<Longrightarrow> files (snd res) out = files w out" by simp
  from all show "fst res \<noteq> Return Skipped \<and> fst res \<noteq> Return Failed" by simp
  from all show "fst res = Return Saved \<Longrightarrow>
           \<exists>r. response_200 env = Some r \<and> (\<forall>e. StreamErr e \<notin> set (body r))
             \<and> chunk_bytes (body r) \<noteq> []
             \<and> files (snd res) out = Some (chunk_bytes (body r))
             \<and> files (snd res) (out @ ''.part'') = None" by simp
  from all show "fst res = Return Empty \<Longrightarrow> empty_body env" by simp
qed


subsection \<open>The retry loop\<close>

lemma retry_loop_exit:
  "h + 1 \<le> k \<Longrightarrow>
     retry_loop pub srv z x y h k lr w
       = (Failed, log_failure z x y (the (py_or lr (Some ''unknown''))) w)"
  by (subst retry_loop.simps) simp

lemma retry_loop_return:
  "k \<le> h \<Longrightarrow> attempt_body pub (srv k) (tile_url z x y) (tile_path z x y) lr w = (Return out, w')
     \<Longrightarrow> retry_loop pub srv z x y h k lr w = (out, w')"
  by (subst retry_loop.simps) simp

lemma retry_loop_retry:
  "k < h \<Longrightarrow> attempt_body pub (srv k) (tile_url z x y) (tile_path z x y) lr w = (Next lr', w')
     \<Longrightarrow> truthy lr' \<Longrightarrow> startswith (the lr') ''html_or_json''
     \<Longrightarrow> retry_loop pub srv z x y h k lr w
           = retry_loop pub srv z x y h (k + 1) lr' (do_sleep (Backoff k) w')"
  by (subst retry_loop.simps) simp

lemma retry_loop_fail:
  "k \<le> h \<Longrightarrow> attempt_body pub (srv k) (tile_url z x y) (tile_path z x y) lr w = (Next lr', w')
     \<Longrightarrow> \<not> (truthy lr' \<and> startswith (the lr') ''html_or_json'' \<and> k < h)
     \<Longrightarrow> retry_loop pub srv z x y h k lr w
           = (Failed, log_failure z x y (the (py_or lr' (Some ''unknown''))) w')"
  by (subst retry_loop.simps) auto

text \<open>An induction rule along the passes of the loop: \<open>P k lr w res\<close> relates the state at
  the start of pass \<open>k\<close> to the result of the loop from there.\<close>

lemma retry_loop_rule [case_names exit return retry fail]:
  assumes exit: "\<And>k lr w. h + 1 \<le> k \<Longrightarrow>
      P k lr w (Failed, log_failure z x y (the (py_or lr (Some ''unknown''))) w)"
    and return: "\<And>k lr w out w'. k \<le> h \<Longrightarrow>
      attempt_body pub (srv k) (tile_url z x y) (tile_path z x y) lr w = (Return out, w')
      \<Longrightarrow> P k lr w (out, w')"
    and retry: "\<And>k lr w lr' w'. k < h \<Longrightarrow>
      attempt_body pub (srv k) (tile_url z x y) (tile_path z x y) lr w = (Next lr', w')
      \<Longrightarrow> truthy lr' \<Longrightarrow> startswith (the lr') ''html_or_json''
      \<Longrightarrow> P (k + 1) lr' (do_sleep (Backoff k) w')
            (retry_loop pub srv z x y h (k + 1) lr' (do_sleep (Backoff k) w'))
      \<Longrightarrow> P k lr w (retry_loop pub srv z x y h (k + 1) lr' (do_sleep (Backoff k) w'))"
    and fail: "\<And>k lr w lr' w'. k \<le> h \<Longrightarrow>
      attempt_body pub (srv k) (tile_url z x y) (tile_path z x y) lr w = (Next lr', w')
      \<Longrightarrow> \<not> (truthy lr' \<and> startswith (the lr') ''html_or_json'' \<and> k < h)
      \<Longrightarrow> P k lr w (Failed, log_failure z x y (the (py_or lr' (Some ''unknown''))) w')"
  shows "P k lr w (retry_loop pub srv z x y h k lr w)"
proof (induction "nat (h + 1 - k)" arbitrary: k lr w)
  case 0
  then have "h + 1 \<le> k" by simp
  then show ?case by (simp add: retry_loop_exit exit)
next
  case (Suc n)
  then have kh: "k \<le> h" by simp
  obtain st w' where ab: "attempt_body pub (srv k) (tile_url z x y) (tile_path z x y) lr w = (st, w')"
    by (cases "attempt_body pub (srv k) (tile_url z x y) (tile_path z x y) lr w")
  show ?case
  proof (cases st)
    case (Return out)
    with kh ab show ?thesis by (simp add: retry_loop_return return)
  next
    case (Next lr')
    show ?thesis
    proof (cases "truthy lr' \<and> startswith (the lr') ''html_or_json'' \<and> k < h")
      case True
      from Suc(2) True have n: "n = nat (h + 1 - (k + 1))" by simp
      from True ab Next have step: "retry_loop pub srv z x y h k lr w
           = retry_loop pub srv z x y h (k + 1) lr' (do_sleep (Backoff k) w')"
        by (simp add: retry_loop_retry)
      from True ab Next Suc(1) [OF n] show ?thesis
        unfolding step by (intro retry) simp_all
    next
      case False
      from ab Next have ab': "attempt_body pub (srv k) (tile_url z x y) (tile_path z x y) lr w = (Next lr', w')"
        by simp
      have "retry_loop pub srv z x y h k lr w
              = (Failed, log_failure z x y (the (py_or lr' (Some ''unknown''))) w')"
        using kh ab' False by (rule retry_loop_fail)
      with fail [OF kh ab' False] show ?thesis by simp
    qed
  qed
qed

lemma log_failure_simps [simp]:
  "files (log_failure z x y reason w) = files w"
  "requests (log_failure z x y reason w) = requests w"
  "sleeps (log_failure z x y reason w) = sleeps w"
  "failed_file (log_failure z x y reason w)
     = failed_file w @ [str_int z @ ''/'' @ str_int x @ ''/'' @ str_int y @ ''  '' @ reason @ [CHR 0x0A]]"
  by (simp_all add: log_failure_def)

lemma do_sleep_simps [simp]:
  "files (do_sleep s w) = files w"
  "requests (do_sleep s w) = requests w"
  "failed_file (do_sleep s w) = failed_file w"
  "sleeps (do_sleep s w) = sleeps w @ [s]"
  by (simp_all add: do_sleep_def)



text \<open>The destination file changes only when the loop ends in \<open>Saved\<close>, and then it
  holds the whole body of the 200 response of some pass.\<close>

lemma retry_loop_dest:
  "fst (retry_loop publish srv z x y h k lr w) \<noteq> Skipped
   \<and> (fst (retry_loop publish srv z x y h k lr w) \<noteq> Saved
        \<longrightarrow> files (snd (retry_loop publish srv z x y h k lr w)) (tile_path z x y) = files w (tile_path z x y))
   \<and> (fst (retry_loop publish srv z x y h k lr w) = Saved
        \<longrightarrow> (\<exists>j r. k \<le> j \<and> j \<le> h \<and> response_200 (srv j) = Some r
              \<and> (\<forall>e. StreamErr e \<notin> set (body r)) \<and> chunk_bytes (body r) \<noteq> []
              \<and> files (snd (retry_loop publish srv z x y h k lr w)) (tile_path z x y)
                  = Some (chunk_bytes (body r))
              \<and> files (snd (retry_loop publish srv z x y h k lr w)) (tile_path z x y @ ''.part'') = None))
   \<and> (fst (retry_loop publish srv z x y h k lr w) = Empty
        \<longrightarrow> (\<exists>j. k \<le> j \<and> j \<le> h \<and> empty_body (srv j)))"
proof (rule retry_loop_rule [where P = "\<lambda>k lr w res.
     fst res \<noteq> Skipped
   \<and> (fst res \<noteq> Saved \<longrightarrow> files (snd res) (tile_path z x y) = files w (tile_path z x y))
   \<and> (fst res = Saved
        \<longrightarrow> (\<exists>j r. k \<le> j \<and> j \<le> h \<and> response_200 (srv j) = Some r
              \<and> (\<forall>e. StreamErr e \<notin> set (body r)) \<and> chunk_bytes (body r) \<noteq> []
              \<and> files (snd res) (tile_path z x y) = Some (chunk_bytes (body r))
              \<and> files (snd res) (tile_path z x y @ ''.part'') = None))
   \<and> (fst res = Empty \<longrightarrow> (\<exists>j. k \<le> j \<and> j \<le> h \<and> empty_body (srv j)))"
     and pub = publish and srv = srv and h = h], goal_cases)
  case (1 k lr w)
  show ?case by simp
next
  case (2 k lr w out w')
  note eff = attempt_body_effects [where env = "srv k" and url = "tile_url z x y"
      and out = "tile_path z x y" and lr = lr and w = w]
  have a: "out \<noteq> Skipped" using eff(5) 2(2) by auto
  have b: "out \<noteq> Saved \<longrightarrow> files w' (tile_path z x y) = files w (tile_path z x y)"
    using eff(4) 2(2) by auto
  have c: "out = Saved \<longrightarrow> (\<exists>j r. k \<le> j \<and> j \<le> h \<and> response_200 (srv j) = Some r
              \<and> (\<forall>e. StreamErr e \<notin> set (body r)) \<and> chunk_bytes (body r) \<noteq> []
              \<and> files w' (tile_path z x y) = Some (chunk_bytes (body r))
              \<and> files w' (tile_path z x y @ ''.part'') = None)"
  proof
    assume "out = Saved"
    with eff(6) 2(2) obtain r where "response_200 (srv k) = Some r"
      "\<forall>e. StreamErr e \<notin> set (body r)" "chunk_bytes (body r) \<noteq> []"
      "files w' (tile_path z x y) = Some (chunk_bytes (body r))"
      "files w' (tile_path z x y @ ''.part'') = None" by auto
    with 2(1) show "\<exists>j r. k \<le> j \<and> j \<le> h \<and> response_200 (srv j) = Some r
              \<and> (\<forall>e. StreamErr e \<notin> set (body r)) \<and> chunk_bytes (body r) \<noteq> []
              \<and> files w' (tile_path z x y) = Some (chunk_bytes (body r))
              \<and> files w' (tile_path z x y @ ''.part'') = None"
      by (intro exI [of _ k] exI [of _ r]) simp
  qed
  have d: "out = Empty \<longrightarrow> (\<exists>j. k \<le> j \<and> j \<le> h \<and> empty_body (srv j))"
    using eff(7) 2 by auto
  from a b c d show ?case by simp
next
  case (3 k lr w lr' w')
  note eff = attempt_body_effects [where env = "srv k" and url = "tile_url z x y"
      and out = "tile_path z x y" and lr = lr and w = w]
  have keep: "files w' (tile_path z x y) = files w (tile_path z x y)"
    using eff(4) 3(2) by simp
  let ?res = "retry_loop publish srv z x y h (k + 1) lr' (do_sleep (Backoff k) w')"
  from 3(5) have a: "fst ?res \<noteq> Skipped"
    and b: "fst ?res \<noteq> Saved \<longrightarrow> files (snd ?res) (tile_path z x y) = files w' (tile_path z x y)"
    and c: "fst ?res = Saved \<longrightarrow> (\<exists>j r. k + 1 \<le> j \<and> j \<le> h \<and> response_200 (srv j) = Some r
              \<and> (\<forall>e. StreamErr e \<notin> set (body r)) \<and> chunk_bytes (body r) \<noteq> []
              \<and> files (snd ?res) (tile_path z x y) = Some (chunk_bytes (body r))
              \<and> files (snd ?res) (tile_path z x y @ ''.part'') = None)"
    and d: "fst ?res = Empty \<longrightarrow> (\<exists>j. k + 1 \<le> j \<and> j \<le> h \<and> empty_body (srv j))"
    by simp_all
  have c': "fst ?res = Saved \<longrightarrow> (\<exists>j r. k \<le> j \<and> j \<le> h \<and> response_200 (srv j) = Some r
              \<and> (\<forall>e. StreamErr e \<notin> set (body r)) \<and> chunk_bytes (body r) \<noteq> []
              \<and> files (snd ?res) (tile_path z x y) = Some (chunk_bytes (body r))
              \<and> files (snd ?res) (tile_path z x y @ ''.part'') = None)"
  proof
    assume "fst ?res = Saved"
    with c obtain j r where "k + 1 \<le> j" and rest: "j \<le> h" "response_200 (srv j) = Some r"
      "\<forall>e. StreamErr e \<notin> set (body r)" "chunk_bytes (body r) \<noteq> []"
      "files (snd ?res) (tile_path z x y) = Some (chunk_bytes (body r))"
      "files (snd ?res) (tile_path z x y @ ''.part'') = None" by blast
    then have "k \<le> j" by simp
    with rest show "\<exists>j r. k \<le> j \<and> j \<le> h \<and> response_200 (srv j) = Some r
              \<and> (\<forall>e. StreamErr e \<notin> set (body r)) \<and> chunk_bytes (body r) \<noteq> []
              \<and> files (snd ?res) (tile_path z x y) = Some (chunk_bytes (body r))
              \<and> files (snd ?res) (tile_path z x y @ ''.part'') = None" by blast
  qed
  have d': "fst ?res = Empty \<longrightarrow> (\<exists>j. k \<le> j \<and> j \<le> h \<and> empty_body (srv j))"
  proof
    assume "fst ?res = Empty"
    with d obtain j where "k + 1 \<le> j" "j \<le> h" "empty_body (srv j)" by blast
    then have "k \<le> j \<and> j \<le> h \<and> empty_body (srv j)" by simp
    then show "\<exists>j. k \<le> j \<and> j \<le> h \<and> empty_body (srv j)" ..
  qed
  from a b c' d' keep show ?case by simp
next
  case (4 k lr w lr' w')
  note eff = attempt_body_effects [where env = "srv k" and url = "tile_url z x y"
      and out = "tile_path z x y" and lr = lr and w = w]
  have "files w' (tile_path z x y) = files w (tile_path z x y)"
    using eff(4) 4(2) by simp
  then show ?case by simp
qed



lemma html_reason [simp]:
  "truthy (Some (''html_or_json:'' @ ct))"
  "startswith (''html_or_json:'' @ ct) ''html_or_json''"
  by (simp_all add: truthy_def startswith_def)

text \<open>When every pass from \<open>k\<close> on meets a poisoned payload, the loop makes all the
  passes up to \<open>h\<close> and fails with one line in the failure file.\<close>

lemma retry_loop_all_poisoned:
  assumes "\<forall>j. k \<le> j \<and> j \<le> h \<longrightarrow> poisoned (srv j)" and "k \<le> h"
  shows "\<exists>reason. fst (retry_loop publish srv z x y h k lr w) = Failed
      \<and> requests (snd (retry_loop publish srv z x y h k lr w))
          = requests w @ replicate (nat (h + 1 - k)) (tile_url z x y)
      \<and> failed_file (snd (retry_loop publish srv z x y h k lr w))
          = failed_file w @ [str_int z @ ''/'' @ str_int x @ ''/'' @ str_int y @ ''  ''
                               @ (''html_or_json:'' @ reason) @ [CHR 0x0A]]"
proof -
  have "(\<forall>j. k \<le> j \<and> j \<le> h \<longrightarrow> poisoned (srv j)) \<longrightarrow> k \<le> h \<longrightarrow>
    (\<exists>reason. fst (retry_loop publish srv z x y h k lr w) = Failed
      \<and> requests (snd (retry_loop publish srv z x y h k lr w))
          = requests w @ replicate (nat (h + 1 - k)) (tile_url z x y)
      \<and> failed_file (snd (retry_loop publish srv z x y h k lr w))
          = failed_file w @ [str_int z @ ''/'' @ str_int x @ ''/'' @ str_int y @ ''  ''
                               @ (''html_or_json:'' @ reason) @ [CHR 0x0A]])"
  proof (rule retry_loop_rule [where P = "\<lambda>k lr w res.
      (\<forall>j. k \<le> j \<and> j \<le> h \<longrightarrow> poisoned (srv j)) \<longrightarrow> k \<le> h \<longrightarrow>
      (\<exists>reason. fst res = Failed
        \<and> requests (snd res) = requests w @ replicate (nat (h + 1 - k)) (tile_url z x y)
        \<and> failed_file (snd res)
            = failed_file w @ [str_int z @ ''/'' @ str_int x @ ''/'' @ str_int y @ ''  ''
                                 @ (''html_or_json:'' @ reason) @ [CHR 0x0A]])"
       and pub = publish and srv = srv and h = h], goal_cases)
    case (1 k lr w)
    then show ?case by simp
  next
    case (2 k lr w out w')
    show ?case
    proof (intro impI)
      assume "\<forall>j. k \<le> j \<and> j \<le> h \<longrightarrow> poisoned (srv j)" "k \<le> h"
      then have "poisoned (srv k)" by simp
      from attempt_body_poisoned [OF this, of "tile_url z x y" "tile_path z x y" lr w] 2(2)
      show "\<exists>reason. fst (out, w') = Failed
        \<and> requests (snd (out, w')) = requests w @ replicate (nat (h + 1 - k)) (tile_url z x y)
        \<and> failed_file (snd (out, w'))
            = failed_file w @ [str_int z @ ''/'' @ str_int x @ ''/'' @ str_int y @ ''  ''
                                 @ (''html_or_json:'' @ reason) @ [CHR 0x0A]]"
        by auto
    qed
  next
    case (3 k lr w lr' w')
    let ?res = "retry_loop publish srv z x y h (k + 1) lr' (do_sleep (Backoff k) w')"
    show ?case
    proof (intro impI)
      assume all: "\<forall>j. k \<le> j \<and> j \<le> h \<longrightarrow> poisoned (srv j)" and "k \<le> h"
      then have "\<forall>j. k + 1 \<le> j \<and> j \<le> h \<longrightarrow> poisoned (srv j)" by simp
      moreover from 3(1) have "k + 1 \<le> h" by simp
      ultimately obtain reason where f: "fst ?res = Failed"
        and rq: "requests (snd ?res)
            = requests (do_sleep (Backoff k) w') @ replicate (nat (h + 1 - (k + 1))) (tile_url z x y)"
        and ff: "failed_file (snd ?res)
            = failed_file (do_sleep (Backoff k) w') @ [str_int z @ ''/'' @ str_int x @ ''/'' @ str_int y @ ''  ''
                                 @ (''html_or_json:'' @ reason) @ [CHR 0x0A]]"
        using 3(5) by blast
      note eff = attempt_body_effects [where env = "srv k" and url = "tile_url z x y"
          and out = "tile_path z x y" and lr = lr and w = w]
      from eff(1,2) 3(2) have w': "requests w' = requests w @ [tile_url z x y]"
        "failed_file w' = failed_file w" by simp_all
      from 3(1) have "nat (h + 1 - k) = Suc (nat (h + 1 - (k + 1)))" by simp
      with rq w' have "requests (snd ?res) = requests w @ replicate (nat (h + 1 - k)) (tile_url z x y)"
        by (simp add: replicate_app_Cons_same)
      with f ff w' show "\<exists>reason. fst ?res = Failed
        \<and> requests (snd ?res) = requests w @ replicate (nat (h + 1 - k)) (tile_url z x y)
        \<and> failed_file (snd ?res)
            = failed_file w @ [str_int z @ ''/'' @ str_int x @ ''/'' @ str_int y @ ''  ''
                                 @ (''html_or_json:'' @ reason) @ [CHR 0x0A]]"
        by auto
    qed
  next
    case (4 k lr w lr' w')
    show ?case
    proof (intro impI)
      assume "\<forall>j. k \<le> j \<and> j \<le> h \<longrightarrow> poisoned (srv j)" "k \<le> h"
      then have "poisoned (srv k)" by simp
      from attempt_body_poisoned [OF this, of "tile_url z x y" "tile_path z x y" lr w] 4(2)
      obtain ct where lr': "lr' = Some (''html_or_json:'' @ ct)"
        and w': "w' = remove_if_exists (tile_path z x y @ ''.part'') (w\<lparr>requests := requests w @ [tile_url z x y]\<rparr>)"
        by auto
      with 4(1,3) html_reason [of ct] have "k = h" by auto
      then have "nat (h + 1 - k) = 1" by simp
      with lr' w' show "\<exists>reason. fst (Failed, log_failure z x y (the (py_or lr' (Some ''unknown''))) w') = Failed
        \<and> requests (snd (Failed, log_failure z x y (the (py_or lr' (Some ''unknown''))) w'))
            = requests w @ replicate (nat (h + 1 - k)) (tile_url z x y)
        \<and> failed_file (snd (Failed, log_failure z x y (the (py_or lr' (Some ''unknown''))) w'))
            = failed_file w @ [str_int z @ ''/'' @ str_int x @ ''/'' @ str_int y @ ''  ''
                                 @ (''html_or_json:'' @ reason) @ [CHR 0x0A]]"
        by simp
    qed
  qed
  with assms show ?thesis by blast
qed

subsection \<open>The retry bound\<close>

text \<open>
  C1. When the tile is not yet stored, \<open>html_retries\<close> is not negative and every pass
  meets a poisoned payload (a 200 response whose non-empty first chunk looks like HTML or
  JSON), \<open>download_tile\<close> sends exactly \<open>1 + html_retries\<close> requests (four with the
  default), returns \<open>Failed\<close>, and appends exactly one line to the failure file, for this
  coordinate and with a reason that begins with \<open>html_or_json:\<close>.
\<close>

theorem retry_bound:
  assumes "\<not> tile_exists_ok (tile_path z x y) w"
    and "0 \<le> html_retries"
    and "\<forall>k. 0 \<le> k \<and> k \<le> html_retries \<longrightarrow> poisoned (srv k)"
  shows "\<exists>reason.
      fst (download_tile srv z x y html_retries w) = Failed
      \<and> requests (snd (download_tile srv z x y html_retries w))
          = requests w @ replicate (nat (1 + html_retries)) (tile_url z x y)
      \<and> failed_file (snd (download_tile srv z x y html_retries w))
          = failed_file w @ [str_int z @ ''/'' @ str_int x @ ''/'' @ str_int y @ ''  ''
                               @ (''html_or_json:'' @ reason) @ [CHR 0x0A]]
      \<and> nat (1 + html_retries_default) = 4"
proof -
  from assms(1) have dl: "download_tile srv z x y html_retries w
      = retry_loop publish srv z x y html_retries 0 None w"
    by (simp add: download_tile_def download_tile_with_def)
  from retry_loop_all_poisoned [OF assms(3) assms(2), of z x y None w]
  show ?thesis
    unfolding dl by (simp add: html_retries_default_def add.commute)
qed

lemma poisoned_json_env: "poisoned json_env"
  by (simp add: poisoned_def response_200_def json_env_def answer_def next_chunk_def
      looks_like_html_or_json_def lstrip_def is_space_def lower_def lower_byte_def str_lower_def str_lower_char_def startswith_def)

theorem retry_bound_witness:
  "\<not> tile_exists_ok (tile_path 3 1 1) empty_world
   \<and> (0::int) \<le> 3
   \<and> poisoned json_env
   \<and> (\<exists>reason.
      fst (download_tile (\<lambda>k. json_env) 3 1 1 3 empty_world) = Failed
      \<and> requests (snd (download_tile (\<lambda>k. json_env) 3 1 1 3 empty_world))
          = requests empty_world @ replicate (nat (1 + 3)) (tile_url 3 1 1)
      \<and> failed_file (snd (download_tile (\<lambda>k. json_env) 3 1 1 3 empty_world))
          = failed_file empty_world @ [str_int 3 @ ''/'' @ str_int 1 @ ''/'' @ str_int 1 @ ''  ''
                               @ (''html_or_json:'' @ reason) @ [CHR 0x0A]]
      \<and> nat (1 + html_retries_default) = 4)"
proof -
  have a: "\<not> tile_exists_ok (tile_path 3 1 1) empty_world"
    by (simp add: tile_exists_ok_def empty_world_def)
  have b: "(0::int) \<le> 3" by simp
  have c: "\<forall>k. 0 \<le> k \<and> k \<le> (3::int) \<longrightarrow> poisoned ((\<lambda>k. json_env) k)"
    by (simp add: poisoned_json_env)
  from retry_bound [OF a b c] a b poisoned_json_env show ?thesis by blast
qed


subsection \<open>Empty bodies\<close>

lemma retry_loop_empty:
  assumes "k \<le> h" and "empty_body (srv k)"
  shows "retry_loop publish srv z x y h k lr w
     = (Empty, remove_if_exists (tile_path z x y @ ''.part'') (w\<lparr>requests := requests w @ [tile_url z x y]\<rparr>))"
  using assms(1) attempt_body_empty [OF assms(2)] by (rule retry_loop_return)

text \<open>
  C7. When a pass of the loop gets a 200 response whose first chunk is empty, the loop
  returns \<open>Empty\<close> at once: this request is the last one, nothing is appended to the
  failure file, no sleep is taken, no temporary file is left and the destination is as it
  was. \<open>Empty\<close> is not \<open>Failed\<close>. For the first pass of a tile that is not yet stored,
  this is the result of \<open>download_tile\<close>.
\<close>

theorem empty_body_returns_empty:
  assumes "k \<le> html_retries" and "empty_body (srv k)"
  shows "fst (retry_loop publish srv z x y html_retries k lr w) = Empty
    \<and> requests (snd (retry_loop publish srv z x y html_retries k lr w)) = requests w @ [tile_url z x y]
    \<and> failed_file (snd (retry_loop publish srv z x y html_retries k lr w)) = failed_file w
    \<and> sleeps (snd (retry_loop publish srv z x y html_retries k lr w)) = sleeps w
    \<and> files (snd (retry_loop publish srv z x y html_retries k lr w)) (tile_path z x y @ ''.part'') = None
    \<and> files (snd (retry_loop publish srv z x y html_retries k lr w)) (tile_path z x y)
        = files w (tile_path z x y)
    \<and> Empty \<noteq> Failed
    \<and> (k = 0 \<and> \<not> tile_exists_ok (tile_path z x y) w \<longrightarrow>
         download_tile srv z x y html_retries w = retry_loop publish srv z x y html_retries k lr w)"
proof -
  have "k = 0 \<and> \<not> tile_exists_ok (tile_path z x y) w \<longrightarrow>
         download_tile srv z x y html_retries w = retry_loop publish srv z x y html_retries k lr w"
  proof
    assume h: "k = 0 \<and> \<not> tile_exists_ok (tile_path z x y) w"
    with assms have "retry_loop publish srv z x y html_retries 0 None w
        = retry_loop publish srv z x y html_retries k lr w"
      by (simp add: retry_loop_empty [of 0 html_retries srv])
    with h show "download_tile srv z x y html_retries w
        = retry_loop publish srv z x y html_retries k lr w"
      by (simp add: download_tile_def download_tile_with_def)
  qed
  moreover have "retry_loop publish srv z x y html_retries k lr w
     = (Empty, remove_if_exists (tile_path z x y @ ''.part'') (w\<lparr>requests := requests w @ [tile_url z x y]\<rparr>))"
    using assms by (rule retry_loop_empty)
  ultimately show ?thesis
    by simp
qed

lemma empty_body_empty_env: "empty_body empty_env"
  by (simp add: empty_body_def response_200_def empty_env_def answer_def next_chunk_def)

theorem empty_body_returns_empty_witness:
  "(0::int) \<le> 3 \<and> empty_body ((\<lambda>k. empty_env) 0)
   \<and> download_tile (\<lambda>k. empty_env) 3 1 1 3 empty_world
       = (Empty, empty_world\<lparr>requests := [tile_url 3 1 1]\<rparr>)"
proof -
  have a: "(0::int) \<le> 3" by simp
  have b: "empty_body ((\<lambda>k. empty_env) 0)" by (simp add: empty_body_empty_env)
  have c: "\<not> tile_exists_ok (tile_path 3 1 1) empty_world"
    by (simp add: tile_exists_ok_def empty_world_def)
  from empty_body_returns_empty [OF a b, of 3 1 1 None empty_world] c
  have "download_tile (\<lambda>k. empty_env) 3 1 1 3 empty_world
      = retry_loop publish (\<lambda>k. empty_env) 3 1 1 3 0 None empty_world"
    by blast
  also have "\<dots> = (Empty, remove_if_exists (tile_path 3 1 1 @ ''.part'')
                      (empty_world\<lparr>requests := requests empty_world @ [tile_url 3 1 1]\<rparr>))"
    using a b by (rule retry_loop_empty)
  also have "\<dots> = (Empty, empty_world\<lparr>requests := [tile_url 3 1 1]\<rparr>)"
    by (simp add: remove_if_exists_def empty_world_def)
  finally show ?thesis using a b by blast
qed

subsection \<open>Only status 200 succeeds\<close>

lemma response_200_fetch:
  "response_200 env = Some r \<Longrightarrow> fetch env = Response r \<and> status_code r = 200"
  by (auto simp: response_200_def split: get_result.splits if_splits)

lemma download_tile_unfold:
  "download_tile srv z x y h w =
     (if tile_exists_ok (tile_path z x y) w then (Skipped, w)
      else retry_loop publish srv z x y h 0 None w)"
  by (simp add: download_tile_def download_tile_with_def)

text \<open>
  C10. For a response whose status code is not exactly 200 (201 and 204 included),
  \<open>_fetch_once\<close> returns no response and the reason \<open>status:<code>\<close>; and when
  \<open>download_tile\<close> returns \<open>Saved\<close> or \<open>Empty\<close>, some pass got a response with status
  exactly 200.
\<close>

theorem strict_200_gate:
  "(status_code r \<noteq> 200 \<longrightarrow>
       fetch_once (Response r) = Inr (None, Some (''status:'' @ str_int (status_code r)), None))
   \<and> (fst (download_tile srv z x y html_retries w) = Saved
        \<or> fst (download_tile srv z x y html_retries w) = Empty \<longrightarrow>
       (\<exists>k r'. 0 \<le> k \<and> k \<le> html_retries \<and> fetch (srv k) = Response r' \<and> status_code r' = 200))"
proof -
  have a: "status_code r \<noteq> 200 \<longrightarrow>
       fetch_once (Response r) = Inr (None, Some (''status:'' @ str_int (status_code r)), None)"
    by (simp add: fetch_once_def)
  have b: "\<exists>k r'. 0 \<le> k \<and> k \<le> html_retries \<and> fetch (srv k) = Response r' \<and> status_code r' = 200"
    if h: "fst (download_tile srv z x y html_retries w) = Saved
        \<or> fst (download_tile srv z x y html_retries w) = Empty"
  proof -
    from h have ne: "\<not> tile_exists_ok (tile_path z x y) w"
      by (auto simp: download_tile_unfold split: if_splits)
    then have dl: "download_tile srv z x y html_retries w
        = retry_loop publish srv z x y html_retries 0 None w"
      by (simp add: download_tile_unfold)
    note d = retry_loop_dest [of srv z x y html_retries 0 None w]
    from h show ?thesis
    proof
      assume "fst (download_tile srv z x y html_retries w) = Saved"
      with d dl obtain j r' where "0 \<le> j" "j \<le> html_retries" "response_200 (srv j) = Some r'"
        by auto
      with response_200_fetch [of "srv j" r'] show ?thesis by blast
    next
      assume "fst (download_tile srv z x y html_retries w) = Empty"
      with d dl obtain j where j: "0 \<le> j" "j \<le> html_retries" "empty_body (srv j)"
        by auto
      then obtain r' where "response_200 (srv j) = Some r'"
        by (auto simp: empty_body_def split: option.splits)
      with j response_200_fetch [of "srv j" r'] show ?thesis by blast
    qed
  qed
  from a b show ?thesis by blast
qed

lemma empty_world_no_tile: "\<not> tile_exists_ok p empty_world"
  by (simp add: tile_exists_ok_def empty_world_def)

theorem strict_200_gate_witness:
  "status_code no_content_response \<noteq> 200
   \<and> fetch_once (Response no_content_response) = Inr (None, Some ''status:204'', None)
   \<and> fst (download_tile (\<lambda>k. empty_env) 3 1 1 3 empty_world) = Empty
   \<and> (\<exists>k r'. 0 \<le> k \<and> k \<le> (3::int) \<and> fetch ((\<lambda>k. empty_env) k) = Response r' \<and> status_code r' = 200)"
proof -
  have a: "status_code no_content_response \<noteq> 200"
    by (simp add: no_content_response_def)
  have s: "str_int (status_code no_content_response) = ''204''"
    by code_simp
  have e: "empty_body ((\<lambda>k. empty_env) 0)"
    by (simp add: empty_body_def response_200_def empty_env_def answer_def next_chunk_def)
  have "retry_loop publish (\<lambda>k. empty_env) 3 1 1 3 0 None empty_world
      = (Empty, remove_if_exists (tile_path 3 1 1 @ ''.part'')
           (empty_world\<lparr>requests := requests empty_world @ [tile_url 3 1 1]\<rparr>))"
    by (rule retry_loop_empty [OF _ e]) simp
  then have b: "fst (download_tile (\<lambda>k. empty_env) 3 1 1 3 empty_world) = Empty"
    by (simp add: download_tile_unfold empty_world_no_tile)
  from strict_200_gate [of no_content_response "\<lambda>k. empty_env" 3 1 1 3 empty_world] a b s
  show ?thesis by simp
qed

subsection \<open>Publishing and cleaning up\<close>

lemma io_reason [simp]:
  "\<not> startswith (''io_or_stream:'' @ e) ''html_or_json''"
  by (simp add: startswith_def)

text \<open>
  C5. When the inner \<open>try\<close> of a pass raises (the stream breaks, or opening, writing or
  renaming the temporary file fails), the temporary \<open>.part\<close> file is gone afterwards, the
  destination is as it was, no further request is sent, and the reason
  \<open>io_or_stream:<detail>\<close> is written to the failure file. Over a whole call of
  \<open>download_tile\<close> the destination changes only when the result is \<open>Saved\<close>, and then it
  holds every byte of a body that was streamed to its end and renamed into place.
\<close>

theorem atomic_publish_cleanup:
  assumes "k \<le> html_retries"
    and "fetch_once (fetch (srv k)) = Inr (Some r, err, ct)"
    and "try_body publish (srv k) r ct (tile_path z x y @ ''.part'') (tile_path z x y)
           (w\<lparr>requests := requests w @ [tile_url z x y]\<rparr>) = (Raise e, w1)"
  shows "fst (retry_loop publish srv z x y html_retries k lr w) = Failed
    \<and> files (snd (retry_loop publish srv z x y html_retries k lr w)) (tile_path z x y @ ''.part'') = None
    \<and> files (snd (retry_loop publish srv z x y html_retries k lr w)) (tile_path z x y)
        = files w (tile_path z x y)
    \<and> requests (snd (retry_loop publish srv z x y html_retries k lr w)) = requests w @ [tile_url z x y]
    \<and> failed_file (snd (retry_loop publish srv z x y html_retries k lr w))
        = failed_file w @ [str_int z @ ''/'' @ str_int x @ ''/'' @ str_int y @ ''  ''
                             @ (''io_or_stream:'' @ e) @ [CHR 0x0A]]
    \<and> (fst (download_tile srv z x y html_retries w) \<noteq> Saved \<longrightarrow>
          files (snd (download_tile srv z x y html_retries w)) (tile_path z x y)
            = files w (tile_path z x y))
    \<and> (fst (download_tile srv z x y html_retries w) = Saved \<longrightarrow>
          (\<exists>j r'. 0 \<le> j \<and> j \<le> html_retries \<and> response_200 (srv j) = Some r'
             \<and> (\<forall>e'. StreamErr e' \<notin> set (body r'))
             \<and> files (snd (download_tile srv z x y html_retries w)) (tile_path z x y)
                 = Some (chunk_bytes (body r'))
             \<and> files (snd (download_tile srv z x y html_retries w)) (tile_path z x y @ ''.part'') = None))"
proof -
  let ?tmp = "tile_path z x y @ ''.part''"
  have ab: "attempt_body publish (srv k) (tile_url z x y) (tile_path z x y) lr w
      = (Next (Some (''io_or_stream:'' @ e)), remove_if_exists ?tmp w1)"
    using assms(2,3) by (simp add: attempt_body_def Let_def)
  have "\<not> (truthy (Some (''io_or_stream:'' @ e))
           \<and> startswith (the (Some (''io_or_stream:'' @ e))) ''html_or_json'' \<and> k < html_retries)"
    using io_reason [of e] by simp
  with assms(1) ab have rl: "retry_loop publish srv z x y html_retries k lr w
      = (Failed, log_failure z x y (the (py_or (Some (''io_or_stream:'' @ e)) (Some ''unknown'')))
                   (remove_if_exists ?tmp w1))"
    by (rule retry_loop_fail)
  have po: "the (py_or (Some (''io_or_stream:'' @ e)) (Some ''unknown'')) = ''io_or_stream:'' @ e"
    by (simp add: py_or_def truthy_def)
  from try_body_raise [OF assms(3)]
  have w1: "files w1 (tile_path z x y) = files w (tile_path z x y)"
    "failed_file w1 = failed_file w" "requests w1 = requests w @ [tile_url z x y]"
    by simp_all
  have first: "fst (retry_loop publish srv z x y html_retries k lr w) = Failed
    \<and> files (snd (retry_loop publish srv z x y html_retries k lr w)) ?tmp = None
    \<and> files (snd (retry_loop publish srv z x y html_retries k lr w)) (tile_path z x y)
        = files w (tile_path z x y)
    \<and> requests (snd (retry_loop publish srv z x y html_retries k lr w)) = requests w @ [tile_url z x y]
    \<and> failed_file (snd (retry_loop publish srv z x y html_retries k lr w))
        = failed_file w @ [str_int z @ ''/'' @ str_int x @ ''/'' @ str_int y @ ''  ''
                             @ (''io_or_stream:'' @ e) @ [CHR 0x0A]]"
    unfolding rl po using w1 by simp
  note d = retry_loop_dest [of srv z x y html_retries 0 None w]
  have second: "fst (download_tile srv z x y html_retries w) \<noteq> Saved \<longrightarrow>
          files (snd (download_tile srv z x y html_retries w)) (tile_path z x y)
            = files w (tile_path z x y)"
    using d by (simp add: download_tile_unfold)
  have third: "fst (download_tile srv z x y html_retries w) = Saved \<longrightarrow>
          (\<exists>j r'. 0 \<le> j \<and> j \<le> html_retries \<and> response_200 (srv j) = Some r'
             \<and> (\<forall>e'. StreamErr e' \<notin> set (body r'))
             \<and> files (snd (download_tile srv z x y html_retries w)) (tile_path z x y)
                 = Some (chunk_bytes (body r'))
             \<and> files (snd (download_tile srv z x y html_retries w)) ?tmp = None)"
  proof
    assume sv: "fst (download_tile srv z x y html_retries w) = Saved"
    then have dl: "download_tile srv z x y html_retries w
        = retry_loop publish srv z x y html_retries 0 None w"
      by (auto simp: download_tile_unfold split: if_splits)
    from sv d obtain j r' where "0 \<le> j" "j \<le> html_retries" "response_200 (srv j) = Some r'"
      "\<forall>e'. StreamErr e' \<notin> set (body r')"
      "files (snd (retry_loop publish srv z x y html_retries 0 None w)) (tile_path z x y)
         = Some (chunk_bytes (body r'))"
      "files (snd (retry_loop publish srv z x y html_retries 0 None w)) ?tmp = None"
      unfolding dl by blast
    then show "\<exists>j r'. 0 \<le> j \<and> j \<le> html_retries \<and> response_200 (srv j) = Some r'
             \<and> (\<forall>e'. StreamErr e' \<notin> set (body r'))
             \<and> files (snd (download_tile srv z x y html_retries w)) (tile_path z x y)
                 = Some (chunk_bytes (body r'))
             \<and> files (snd (download_tile srv z x y html_retries w)) ?tmp = None"
      unfolding dl by blast
  qed
  from first second third show ?thesis by blast
qed


lemma fetch_once_broken_env:
  "fetch_once (fetch broken_env) = Inr (Some broken_response, None, Some ''application/x-protobuf'')"
  by (simp add: fetch_once_def broken_env_def answer_def broken_response_def py_or_def truthy_def
      lower_def lower_byte_def str_lower_def str_lower_char_def)

lemma try_body_broken_env:
  "try_body publish broken_env broken_response ct tmp out w
     = (Raise ''reset'', f_write tmp ''ab'' (open_wb tmp w))"
  by (simp add: try_body_def broken_env_def answer_def broken_response_def next_chunk_def
      looks_like_html_or_json_def lstrip_def is_space_def lower_def lower_byte_def str_lower_def str_lower_char_def startswith_def
      stream_to_tmp_def)

theorem atomic_publish_cleanup_witness:
  "(0::int) \<le> 3
   \<and> fetch_once (fetch ((\<lambda>k. broken_env) 0))
       = Inr (Some broken_response, None, Some ''application/x-protobuf'')
   \<and> try_body publish ((\<lambda>k. broken_env) 0) broken_response (Some ''application/x-protobuf'')
         (tile_path 3 1 1 @ ''.part'') (tile_path 3 1 1)
         (empty_world\<lparr>requests := requests empty_world @ [tile_url 3 1 1]\<rparr>)
       = (Raise ''reset'',
          f_write (tile_path 3 1 1 @ ''.part'') ''ab'' (open_wb (tile_path 3 1 1 @ ''.part'')
            (empty_world\<lparr>requests := requests empty_world @ [tile_url 3 1 1]\<rparr>)))
   \<and> files (f_write (tile_path 3 1 1 @ ''.part'') ''ab'' (open_wb (tile_path 3 1 1 @ ''.part'')
            (empty_world\<lparr>requests := requests empty_world @ [tile_url 3 1 1]\<rparr>)))
         (tile_path 3 1 1 @ ''.part'') = Some ''ab''
   \<and> fst (download_tile (\<lambda>k. broken_env) 3 1 1 3 empty_world) = Failed
   \<and> files (snd (download_tile (\<lambda>k. broken_env) 3 1 1 3 empty_world)) (tile_path 3 1 1 @ ''.part'') = None
   \<and> files (snd (download_tile (\<lambda>k. broken_env) 3 1 1 3 empty_world)) (tile_path 3 1 1) = None
   \<and> failed_file (snd (download_tile (\<lambda>k. broken_env) 3 1 1 3 empty_world))
       = [str_int 3 @ ''/'' @ str_int 1 @ ''/'' @ str_int 1 @ ''  '' @ ''io_or_stream:reset'' @ [CHR 0x0A]]"
proof -
  have a: "(0::int) \<le> 3" by simp
  have b: "fetch_once (fetch ((\<lambda>k. broken_env) 0))
       = Inr (Some broken_response, None, Some ''application/x-protobuf'')"
    by (simp add: fetch_once_broken_env)
  have c: "try_body publish ((\<lambda>k. broken_env) 0) broken_response (Some ''application/x-protobuf'')
         (tile_path 3 1 1 @ ''.part'') (tile_path 3 1 1)
         (empty_world\<lparr>requests := requests empty_world @ [tile_url 3 1 1]\<rparr>)
       = (Raise ''reset'',
          f_write (tile_path 3 1 1 @ ''.part'') ''ab'' (open_wb (tile_path 3 1 1 @ ''.part'')
            (empty_world\<lparr>requests := requests empty_world @ [tile_url 3 1 1]\<rparr>)))"
    by (simp add: try_body_broken_env)
  have d: "files (f_write (tile_path 3 1 1 @ ''.part'') ''ab'' (open_wb (tile_path 3 1 1 @ ''.part'')
            (empty_world\<lparr>requests := requests empty_world @ [tile_url 3 1 1]\<rparr>)))
         (tile_path 3 1 1 @ ''.part'') = Some ''ab''"
    by (simp add: f_write_def open_wb_def)
  have dl: "download_tile (\<lambda>k. broken_env) 3 1 1 3 empty_world
      = retry_loop publish (\<lambda>k. broken_env) 3 1 1 3 0 None empty_world"
    by (simp add: download_tile_unfold empty_world_no_tile)
  have e: "files empty_world (tile_path 3 1 1) = None" "failed_file empty_world = []"
    by (simp_all add: empty_world_def)
  from atomic_publish_cleanup [OF a b c, of None] a b c d e show ?thesis
    unfolding dl by simp
qed

subsection \<open>Status failures after a poisoned pass\<close>

lemma str_int_404: "str_int 404 = ''404''"
  by code_simp

lemma attempt_body_json_env:
  "attempt_body publish json_env url out lr w
     = (Next (Some ''html_or_json:application/json''),
        remove_if_exists (out @ ''.part'') (w\<lparr>requests := requests w @ [url]\<rparr>))"
  by (simp add: attempt_body_def fetch_once_def json_env_def answer_def py_or_def truthy_def
      lower_def lower_byte_def str_lower_def str_lower_char_def try_body_def next_chunk_def looks_like_html_or_json_def
      lstrip_def is_space_def startswith_def)

lemma attempt_body_not_found_env:
  "attempt_body publish not_found_env url out lr w
     = (Next (py_or lr (Some ''status:404'')), w\<lparr>requests := requests w @ [url]\<rparr>)"
  using str_int_404
  by (simp add: attempt_body_def fetch_once_def not_found_env_def answer_def py_or_def truthy_def)

lemma html_json_reason:
  "truthy (Some ''html_or_json:application/json'')"
  "startswith (the (Some ''html_or_json:application/json'')) ''html_or_json''"
  by (simp_all add: truthy_def startswith_def)

text \<open>
  C2. The specification says that a pass failing with a status error never leads to another pass,
  whatever earlier passes recorded. Here the first request gets a JSON page with status 200
  and every later one gets status 404, with \<open>html_retries = 3\<close>. Line 104 keeps the stale
  \<open>last_reason\<close> of the first pass, so the 404 passes are retried: four requests are
  sent, and the line in the failure file names \<open>html_or_json\<close>, not \<open>status:404\<close>.
\<close>

theorem status_failure_retried_after_poisoning:
  "fetch_once (fetch (json_then_404 1)) = Inr (None, Some ''status:404'', None)
   \<and> download_tile json_then_404 3 1 1 3 empty_world
       = (Failed,
          empty_world\<lparr>failed_file := [str_int 3 @ ''/'' @ str_int 1 @ ''/'' @ str_int 1 @ ''  ''
                                          @ ''html_or_json:application/json'' @ [CHR 0x0A]],
                       requests := [tile_url 3 1 1, tile_url 3 1 1, tile_url 3 1 1, tile_url 3 1 1],
                       sleeps := [Backoff 0, Backoff 1, Backoff 2]\<rparr>)"
proof -
  let ?lr = "Some ''html_or_json:application/json''"
  let ?u = "tile_url 3 1 1"
  let ?w1 = "do_sleep (Backoff 0) (empty_world\<lparr>requests := [?u]\<rparr>)"
  let ?w2 = "do_sleep (Backoff 1) (?w1\<lparr>requests := requests ?w1 @ [?u]\<rparr>)"
  let ?w3 = "do_sleep (Backoff 2) (?w2\<lparr>requests := requests ?w2 @ [?u]\<rparr>)"
  have f: "fetch_once (fetch (json_then_404 1)) = Inr (None, Some ''status:404'', None)"
    using str_int_404 by (simp add: json_then_404_def fetch_once_def not_found_env_def answer_def)
  have a0: "attempt_body publish (json_then_404 0) ?u (tile_path 3 1 1) None empty_world
      = (Next ?lr, empty_world\<lparr>requests := [?u]\<rparr>)"
    by (simp add: json_then_404_def attempt_body_json_env remove_if_exists_def empty_world_def)
  have a1: "attempt_body publish (json_then_404 1) ?u (tile_path 3 1 1) ?lr ?w1
      = (Next ?lr, ?w1\<lparr>requests := requests ?w1 @ [?u]\<rparr>)"
    by (simp add: json_then_404_def attempt_body_not_found_env py_or_def truthy_def)
  have a2: "attempt_body publish (json_then_404 2) ?u (tile_path 3 1 1) ?lr ?w2
      = (Next ?lr, ?w2\<lparr>requests := requests ?w2 @ [?u]\<rparr>)"
    by (simp add: json_then_404_def attempt_body_not_found_env py_or_def truthy_def)
  have a3: "attempt_body publish (json_then_404 3) ?u (tile_path 3 1 1) ?lr ?w3
      = (Next ?lr, ?w3\<lparr>requests := requests ?w3 @ [?u]\<rparr>)"
    by (simp add: json_then_404_def attempt_body_not_found_env py_or_def truthy_def)
  have "download_tile json_then_404 3 1 1 3 empty_world
      = retry_loop publish json_then_404 3 1 1 3 0 None empty_world"
    by (simp add: download_tile_unfold empty_world_no_tile)
  also have "\<dots> = retry_loop publish json_then_404 3 1 1 3 (0 + 1) ?lr ?w1"
    by (rule retry_loop_retry [where srv = json_then_404 and k = 0, OF _ a0 html_json_reason]) simp
  also have "\<dots> = retry_loop publish json_then_404 3 1 1 3 1 ?lr ?w1"
    by simp
  also have "\<dots> = retry_loop publish json_then_404 3 1 1 3 (1 + 1) ?lr ?w2"
    by (rule retry_loop_retry [where srv = json_then_404 and k = 1, OF _ a1 html_json_reason]) simp
  also have "\<dots> = retry_loop publish json_then_404 3 1 1 3 2 ?lr ?w2"
    by simp
  also have "\<dots> = retry_loop publish json_then_404 3 1 1 3 (2 + 1) ?lr ?w3"
    by (rule retry_loop_retry [where srv = json_then_404 and k = 2, OF _ a2 html_json_reason]) simp
  also have "\<dots> = retry_loop publish json_then_404 3 1 1 3 3 ?lr ?w3"
    by simp
  also have "\<dots> = (Failed, log_failure 3 1 1 (the (py_or ?lr (Some ''unknown'')))
                          (?w3\<lparr>requests := requests ?w3 @ [?u]\<rparr>))"
    by (rule retry_loop_fail [where srv = json_then_404 and k = 3, OF _ a3]) simp_all
  also have "\<dots> = (Failed,
          empty_world\<lparr>failed_file := [str_int 3 @ ''/'' @ str_int 1 @ ''/'' @ str_int 1 @ ''  ''
                                          @ ''html_or_json:application/json'' @ [CHR 0x0A]],
                       requests := [?u, ?u, ?u, ?u],
                       sleeps := [Backoff 0, Backoff 1, Backoff 2]\<rparr>)"
    by (simp add: log_failure_def do_sleep_def empty_world_def py_or_def truthy_def)
  finally show ?thesis using f by simp
qed


subsection \<open>The declared content type\<close>

lemma attempt_body_plain_text_env:
  "attempt_body publish plain_text_env url out lr w
     = (Return Saved,
        do_sleep SaveJitter (os_replace (out @ ''.part'') out
          (f_write (out @ ''.part'') ''hello'' (open_wb (out @ ''.part'')
             (w\<lparr>requests := requests w @ [url]\<rparr>)))))"
  by (simp add: attempt_body_def fetch_once_def plain_text_env_def answer_def py_or_def truthy_def
      lower_def lower_byte_def str_lower_def str_lower_char_def try_body_def next_chunk_def looks_like_html_or_json_def
      lstrip_def is_space_def startswith_def stream_to_tmp_def publish_eq Let_def)

text \<open>
  C6. The specification says that a 200 response with a content type other than the two accepted
  ones is not stored. \<open>is_bad_mime\<close> rejects \<open>text/plain\<close>, but \<open>download_tile\<close> never
  calls it: a body \<open>hello\<close> declared as \<open>text/plain\<close> is saved as the tile and nothing is
  logged.
\<close>

theorem unaccepted_content_type_saved:
  "is_bad_mime (Some ''text/plain'')
   \<and> \<not> looks_like_html_or_json ''hello''
   \<and> fetch_once (fetch plain_text_env)
       = Inr (Some \<lparr>status_code = 200, content_type = Some ''text/plain'', body = [Chunk ''hello'']\<rparr>,
              None, Some ''text/plain'')
   \<and> fst (download_tile (\<lambda>k. plain_text_env) 3 1 1 3 empty_world) = Saved
   \<and> files (snd (download_tile (\<lambda>k. plain_text_env) 3 1 1 3 empty_world)) (tile_path 3 1 1)
       = Some ''hello''
   \<and> failed_file (snd (download_tile (\<lambda>k. plain_text_env) 3 1 1 3 empty_world)) = []"
proof -
  have a: "is_bad_mime (Some ''text/plain'')"
    by (simp add: is_bad_mime_def truthy_def str_strip_def is_str_space_def lower_def lower_byte_def str_lower_def str_lower_char_def
        ACCEPTABLE_CT_def)
  have b: "\<not> looks_like_html_or_json ''hello''"
    by (simp add: looks_like_html_or_json_def lstrip_def is_space_def lower_def lower_byte_def str_lower_def str_lower_char_def
        startswith_def)
  have c: "fetch_once (fetch plain_text_env)
       = Inr (Some \<lparr>status_code = 200, content_type = Some ''text/plain'', body = [Chunk ''hello'']\<rparr>,
              None, Some ''text/plain'')"
    by (simp add: fetch_once_def plain_text_env_def answer_def py_or_def truthy_def
        lower_def lower_byte_def str_lower_def str_lower_char_def)
  have "download_tile (\<lambda>k. plain_text_env) 3 1 1 3 empty_world
      = retry_loop publish (\<lambda>k. plain_text_env) 3 1 1 3 0 None empty_world"
    by (simp add: download_tile_unfold empty_world_no_tile)
  also have "\<dots> = (Saved,
        do_sleep SaveJitter (os_replace (tile_path 3 1 1 @ ''.part'') (tile_path 3 1 1)
          (f_write (tile_path 3 1 1 @ ''.part'') ''hello'' (open_wb (tile_path 3 1 1 @ ''.part'')
             (empty_world\<lparr>requests := requests empty_world @ [tile_url 3 1 1]\<rparr>)))))"
    by (rule retry_loop_return [where srv = "\<lambda>k. plain_text_env" and k = 0])
       (simp_all add: attempt_body_plain_text_env)
  finally have d: "download_tile (\<lambda>k. plain_text_env) 3 1 1 3 empty_world
      = (Saved,
        do_sleep SaveJitter (os_replace (tile_path 3 1 1 @ ''.part'') (tile_path 3 1 1)
          (f_write (tile_path 3 1 1 @ ''.part'') ''hello'' (open_wb (tile_path 3 1 1 @ ''.part'')
             (empty_world\<lparr>requests := requests empty_world @ [tile_url 3 1 1]\<rparr>)))))" .
  from a b c show ?thesis
    unfolding d by (simp add: os_replace_def f_write_def open_wb_def empty_world_def)
qed

subsection \<open>Poisoning detection\<close>

















subsection \<open>Running the pipeline twice\<close>



















end
